theory Spec2Isabelle
  imports Main "HOL-Library.Multiset"
begin

section \<open>Strings\<close>

text \<open>
  A Python \<open>str\<close> is a sequence of code points. The strings here are the sequences of code
  points below \<open>U+0100\<close>: a \<open>char\<close> is its code point, so \<open>CHR 0xC9\<close> is the letter
  \<open>U+00C9\<close>. The methods of \<open>str\<close> that \<open>main.py\<close> calls are written out for these
  characters from Python's tables. The uppercase characters are \<open>A..Z\<close> and
  \<open>U+00C0..U+00DE\<close> without \<open>U+00D7\<close>; \<open>str.lower\<close> replaces each of them by the
  character \<open>0x20\<close> above it and leaves every other character alone; the lowercase
  characters are \<open>a..z\<close>, \<open>U+00AA\<close>, \<open>U+00B5\<close>, \<open>U+00BA\<close> and \<open>U+00DF..U+00FF\<close> without
  \<open>U+00F7\<close>; no character below \<open>U+0100\<close> is titlecase. \<open>str.islower\<close> is Python's: no
  uppercase character and at least one lowercase character (so a string without any
  cased character is not \<open>islower\<close>).
\<close>

definition isupper_char :: "char \<Rightarrow> bool" where
  "isupper_char c =
     (let n = (of_char c :: nat)
      in (0x41 \<le> n \<and> n \<le> 0x5A) \<or> (0xC0 \<le> n \<and> n \<le> 0xDE \<and> n \<noteq> 0xD7))"

definition islower_char :: "char \<Rightarrow> bool" where
  "islower_char c =
     (let n = (of_char c :: nat)
      in (0x61 \<le> n \<and> n \<le> 0x7A) \<or> n = 0xAA \<or> n = 0xB5 \<or> n = 0xBA
         \<or> (0xDF \<le> n \<and> n \<noteq> 0xF7))"

definition uppercase :: string where
  "uppercase = ''ABCDEFGHIJKLMNOPQRSTUVWXYZ'' @
     [CHR 0xC0, CHR 0xC1, CHR 0xC2, CHR 0xC3, CHR 0xC4, CHR 0xC5, CHR 0xC6, CHR 0xC7,
      CHR 0xC8, CHR 0xC9, CHR 0xCA, CHR 0xCB, CHR 0xCC, CHR 0xCD, CHR 0xCE, CHR 0xCF,
      CHR 0xD0, CHR 0xD1, CHR 0xD2, CHR 0xD3, CHR 0xD4, CHR 0xD5, CHR 0xD6, CHR 0xD8,
      CHR 0xD9, CHR 0xDA, CHR 0xDB, CHR 0xDC, CHR 0xDD, CHR 0xDE]"

text \<open>The lowercase form of each uppercase character, in the same order.\<close>

definition lowercase :: string where
  "lowercase = ''abcdefghijklmnopqrstuvwxyz'' @
     [CHR 0xE0, CHR 0xE1, CHR 0xE2, CHR 0xE3, CHR 0xE4, CHR 0xE5, CHR 0xE6, CHR 0xE7,
      CHR 0xE8, CHR 0xE9, CHR 0xEA, CHR 0xEB, CHR 0xEC, CHR 0xED, CHR 0xEE, CHR 0xEF,
      CHR 0xF0, CHR 0xF1, CHR 0xF2, CHR 0xF3, CHR 0xF4, CHR 0xF5, CHR 0xF6, CHR 0xF8,
      CHR 0xF9, CHR 0xFA, CHR 0xFB, CHR 0xFC, CHR 0xFD, CHR 0xFE]"

definition lower_char :: "char \<Rightarrow> char" where
  "lower_char c =
     (if isupper_char c
      then (case map_of (zip uppercase lowercase) c of Some d \<Rightarrow> d | None \<Rightarrow> c)
      else c)"

definition str_lower :: "string \<Rightarrow> string" where
  "str_lower s = map lower_char s"

definition str_islower :: "string \<Rightarrow> bool" where
  "str_islower s = (list_ex islower_char s \<and> \<not> list_ex isupper_char s)"

text \<open>\<open>string.replace(' ', '_')\<close>: every space becomes an underscore.\<close>

definition replace_space :: "string \<Rightarrow> string" where
  "replace_space s = map (\<lambda>c. if c = CHR '' '' then CHR ''_'' else c) s"

text \<open>\<open>a in b\<close> for two strings: \<open>a\<close> is a contiguous part of \<open>b\<close>.\<close>

fun str_startswith :: "string \<Rightarrow> string \<Rightarrow> bool" where
  "str_startswith s [] = True"
| "str_startswith [] (p # ps) = False"
| "str_startswith (c # cs) (p # ps) = (c = p \<and> str_startswith cs ps)"

fun str_contains :: "string \<Rightarrow> string \<Rightarrow> bool" where
  "str_contains [] sub = (sub = [])"
| "str_contains (c # cs) sub = (str_startswith (c # cs) sub \<or> str_contains cs sub)"

text \<open>
  The vocabulary of the specification: a string that has an uppercase character or a
  space, a string that has a cased character (an uppercase or a lowercase one), and a
  string in normal form (no uppercase character and no space).
\<close>

definition has_upper_or_space :: "string \<Rightarrow> bool" where
  "has_upper_or_space s = (list_ex isupper_char s \<or> CHR '' '' \<in> set s)"

definition has_cased :: "string \<Rightarrow> bool" where
  "has_cased s = list_ex (\<lambda>c. isupper_char c \<or> islower_char c) s"

definition normalized :: "string \<Rightarrow> bool" where
  "normalized s = (\<not> has_upper_or_space s)"

section \<open>JSON values, paths, errors\<close>

text \<open>
  What \<open>json.load\<close> returns: \<open>None\<close>, a \<open>bool\<close>, an \<open>int\<close>, a \<open>str\<close>, a \<open>list\<close> or a
  \<open>dict\<close> with string keys, kept in the order of the document (Python dictionaries keep
  insertion order). Numbers with a fraction or an exponent (Python floats) are not part of
  the model.
\<close>

datatype json =
    JNull
  | JBool bool
  | JInt int
  | JStr string
  | JArr "json list"
  | JObj "(string \<times> json) list"

text \<open>
  A path is the list of its components below the pack root (\<open>path\<close> in \<open>check_files\<close>),
  so \<open>file_path.relative_to(path).as_posix()\<close> joins the components with \<open>/\<close>.
\<close>

type_synonym path = "string list"

text \<open>The exceptions of Python itself that the code can raise and does not catch by class.
  \<open>OSError\<close> stands for its subclasses (\<open>FileNotFoundError\<close>, \<open>IsADirectoryError\<close>, ...).\<close>

datatype py_exception =
    IndexError
  | KeyError string
  | TypeError
  | AttributeError
  | UnboundLocalError
  | EOFError
  | OSError
  | UnicodeDecodeError

text \<open>
  The messages of the two exception classes of \<open>main.py\<close> are f-strings; each becomes a
  constructor that carries the values the f-string interpolates. A \<open>mismatch\<close> is one line
  of the combined report of \<open>check_files\<close>.
\<close>

datatype mismatch =
    ModelKeysNotFound "string set"
  | UnusedModelFiles "string set"
  | TextureKeysNotFound "string set"
  | UnusedTextureFiles "string set"

datatype problem =
    MalformedJson path
  | OverridesKeyNotFound path
  | OverridesNotList path
  | MissingKey string
  | DuplicateCustomModelData int path
  | TexturesNotJson path
  | ElementsKeyNotFound path
  | MissingTexture path
  | UnmatchedNames "mismatch list"

datatype fatal =
    TexturesKeyNotFound path
  | ItemDirNotFound
  | TexturesDirNotFound
  | PackMcmetaNotFound
  | AssetsMinecraftNotFound

text \<open>
  \<open>OutsideModel\<close> is no exception of the program: it marks a document the model does not
  cover (a \<open>custom_model_data\<close> that is not an integer).
\<close>

datatype error =
    NoQuickFix problem
  | ResourcePackError fatal
  | Uncaught py_exception
  | OutsideModel

fun is_NoQuickFix :: "error + 'a \<Rightarrow> bool" where
  "is_NoQuickFix (Inl (NoQuickFix p)) = True"
| "is_NoQuickFix r = False"

fun is_ResourcePackError :: "error + 'a \<Rightarrow> bool" where
  "is_ResourcePackError (Inl (ResourcePackError f)) = True"
| "is_ResourcePackError r = False"

subsection \<open>Python's operations on JSON values\<close>

text \<open>\<open>key in value\<close> for a string key: keys of a dict, elements of a list, parts of a string.\<close>

fun py_in :: "string \<Rightarrow> json \<Rightarrow> error + bool" where
  "py_in key (JObj kvs) = Inr (key \<in> set (map fst kvs))"
| "py_in key (JArr xs) = Inr (JStr key \<in> set xs)"
| "py_in key (JStr s) = Inr (str_contains s key)"
| "py_in key v = Inl (Uncaught TypeError)"

text \<open>\<open>value[key]\<close> for a string key: only a dict can be subscripted by a string.\<close>

fun py_getitem :: "json \<Rightarrow> string \<Rightarrow> error + json" where
  "py_getitem (JObj kvs) key =
     (case map_of kvs key of None \<Rightarrow> Inl (Uncaught (KeyError key)) | Some v \<Rightarrow> Inr v)"
| "py_getitem v key = Inl (Uncaught TypeError)"

text \<open>
  \<open>value[key] = new\<close> for a string key: a dict keeps the position of a key it has and
  appends a new one.
\<close>

fun dict_set :: "(string \<times> json) list \<Rightarrow> string \<Rightarrow> json \<Rightarrow> (string \<times> json) list" where
  "dict_set [] key new = [(key, new)]"
| "dict_set ((k, v) # kvs) key new =
     (if k = key then (k, new) # kvs else (k, v) # dict_set kvs key new)"

fun py_setitem :: "json \<Rightarrow> string \<Rightarrow> json \<Rightarrow> error + json" where
  "py_setitem (JObj kvs) key new = Inr (JObj (dict_set kvs key new))"
| "py_setitem v key new = Inl (Uncaught TypeError)"

section \<open>The run's state and the confirmation prompt\<close>

text \<open>
  The questions \<open>ask\<close> is called with, by call site, and what the run leaves behind: the
  questions asked, the answers it did not understand, the files it dumped and renamed, and
  what \<open>diagnose\<close> printed.
\<close>

datatype question =
    InvalidFileName string
  | McmetaMalformed
  | McmetaNoPack
  | McmetaNoPackFormat
  | McmetaPackFormatNotWhole
  | McmetaNoDescription
  | NotJsonFile string
  | NotPngFile string
  | NotAscending path
  | InvalidTextures path

datatype event =
    Asked question
  | NotUnderstood
  | Dumped path json
  | Renamed path path
  | PrintedError error
  | PrintedNoQuickFix
  | PrintedTraceback py_exception
  | PressEnterToExit
  | PressEnterToTryAgain

text \<open>
  A file holds text that \<open>json.load\<close> parses to a value, text it rejects, or bytes that
  are no text at all (reading them raises \<open>UnicodeDecodeError\<close>, which is no
  \<open>JSONDecodeError\<close>).
\<close>

datatype content = Doc json | Malformed | Undecodable

text \<open>
  The globals \<open>AUTO_FIX\<close> and \<open>is_error_exist\<close>, the lines still to be read from standard
  input, the trace of events, and the pack directory: its regular files with their content
  and its directories.
\<close>

record world =
  AUTO_FIX :: bool
  is_error_exist :: bool
  stdin :: "string list"
  trace :: "event list"
  files :: "path \<Rightarrow> content option"
  dirs :: "path set"

text \<open>
  The \<open>while True\<close> loop of \<open>ask\<close> over the lines of standard input: the answer, the lines
  left, and how many lines were not understood. \<open>input()\<close> at the end of the input raises
  \<open>EOFError\<close>.
\<close>

fun input_loop :: "string list \<Rightarrow> (error + bool) \<times> string list \<times> nat" where
  "input_loop [] = (Inl (Uncaught EOFError), [], 0)"
| "input_loop (line # rest) =
     (let answer = str_lower line in
      if answer \<in> set [''yes'', ''y''] then (Inr True, rest, 0)
      else if answer \<in> set [''no'', ''n''] then (Inr False, rest, 0)
      else (case input_loop rest of (r, rest', n) \<Rightarrow> (r, rest', Suc n)))"

definition ask :: "question \<Rightarrow> world \<Rightarrow> (error + bool) \<times> world" where
  "ask q w =
     (let w1 = w\<lparr>is_error_exist := True, trace := trace w @ [Asked q]\<rparr> in
      if AUTO_FIX w1 then (Inr True, w1)
      else (case input_loop (stdin w1) of
              (r, rest, n) \<Rightarrow> (r, w1\<lparr>stdin := rest, trace := trace w1 @ replicate n NotUnderstood\<rparr>)))"

section \<open>The name normalizer\<close>

definition fix_name :: "string \<Rightarrow> world \<Rightarrow> (error + bool \<times> string) \<times> world" where
  "fix_name string w =
     (if str_islower string \<and> CHR '' '' \<notin> set string then (Inr (False, string), w)
      else (case ask (InvalidFileName string) w of
              (Inl e, w') \<Rightarrow> (Inl e, w')
            | (Inr answer, w') \<Rightarrow>
                if answer then (Inr (True, str_lower (replace_space string)), w')
                else (Inr (False, string), w')))"

text \<open>\<open>fix_name\<close> applied to a JSON value: only a \<open>str\<close> has \<open>islower\<close>.\<close>

fun fix_name_value :: "json \<Rightarrow> world \<Rightarrow> (error + bool \<times> string) \<times> world" where
  "fix_name_value (JStr s) w = fix_name s w"
| "fix_name_value v w = (Inl (Uncaught AttributeError), w)"

section \<open>Paths and files\<close>

text \<open>
  The pure operations of \<open>pathlib\<close> the code uses. \<open>suffix\<close> and \<open>stem\<close> split the name at
  its last dot, unless that dot is the first or the last character of the name (\<open>pathlib\<close>
  up to Python 3.13).
\<close>

definition path_name :: "path \<Rightarrow> string" where
  "path_name p = (if p = [] then [] else last p)"

definition rfind_dot :: "string \<Rightarrow> nat option" where
  "rfind_dot s =
     (if CHR ''.'' \<in> set s
      then Some (length s - 1 - length (takeWhile (\<lambda>c. c \<noteq> CHR ''.'') (rev s)))
      else None)"

definition path_suffix :: "path \<Rightarrow> string" where
  "path_suffix p =
     (case rfind_dot (path_name p) of
        None \<Rightarrow> []
      | Some i \<Rightarrow> if 0 < i \<and> i < length (path_name p) - 1 then drop i (path_name p) else [])"

definition path_stem :: "path \<Rightarrow> string" where
  "path_stem p =
     (case rfind_dot (path_name p) of
        None \<Rightarrow> path_name p
      | Some i \<Rightarrow> if 0 < i \<and> i < length (path_name p) - 1 then take i (path_name p)
                  else path_name p)"

definition path_parent :: "path \<Rightarrow> path" where
  "path_parent p = butlast p"

fun join_slash :: "string list \<Rightarrow> string" where
  "join_slash [] = []"
| "join_slash [c] = c"
| "join_slash (c # d # ds) = c @ ''/'' @ join_slash (d # ds)"

definition as_posix :: "path \<Rightarrow> string" where
  "as_posix p = (if p = [] then ''.'' else join_slash p)"

text \<open>\<open>path/new_name\<close>: the string is split at its slashes; empty parts and \<open>.\<close> are dropped.\<close>

fun split_slash :: "string \<Rightarrow> string list" where
  "split_slash [] = [[]]"
| "split_slash (c # cs) =
     (if c = CHR ''/'' then [] # split_slash cs
      else (case split_slash cs of [] \<Rightarrow> [[c]] | part # parts \<Rightarrow> (c # part) # parts))"

definition path_of_posix :: "string \<Rightarrow> path" where
  "path_of_posix s = filter (\<lambda>part. part \<noteq> [] \<and> part \<noteq> ''.'') (split_slash s)"

definition str_endswith :: "string \<Rightarrow> string \<Rightarrow> bool" where
  "str_endswith s suffix = str_startswith (rev s) (rev suffix)"

definition is_file :: "world \<Rightarrow> path \<Rightarrow> bool" where
  "is_file w p = (files w p \<noteq> None)"

text \<open>The pack root itself is a directory: the run was started from a file in it.\<close>

definition is_dir :: "world \<Rightarrow> path \<Rightarrow> bool" where
  "is_dir w p = (p = [] \<or> p \<in> dirs w)"

text \<open>
  \<open>Path.rename\<close> as \<open>os.rename\<close> does it on a POSIX file system: the source must exist,
  the target's directory must exist, the target must not be a directory, and a file at the
  target is replaced.
\<close>

definition rename :: "path \<Rightarrow> path \<Rightarrow> world \<Rightarrow> (error + unit) \<times> world" where
  "rename src dst w =
     (case files w src of
        None \<Rightarrow> (Inl (Uncaught OSError), w)
      | Some c \<Rightarrow>
          if \<not> is_dir w (path_parent dst) \<or> is_dir w dst then (Inl (Uncaught OSError), w)
          else (Inr (), w\<lparr>files := ((files w)(src := None))(dst := Some c),
                          trace := trace w @ [Renamed src dst]\<rparr>))"

text \<open>
  \<open>with file_path.open('w+') as file: dump(json, file, indent=INDENT_LV)\<close>: the file
  then holds the document.
\<close>

definition dump :: "json \<Rightarrow> path \<Rightarrow> world \<Rightarrow> world" where
  "dump json file_path w =
     w\<lparr>files := (files w)(file_path := Some (Doc json)), trace := trace w @ [Dumped file_path json]\<rparr>"

section \<open>The metadata validator\<close>

definition DEFAULT_JSON :: json where
  "DEFAULT_JSON =
     JObj [(''pack'', JObj [(''pack_format'', JInt 8),
                            (''description'', JStr ''Fixed by WingedSeal-Bot'')])]"

definition pack_mcmeta :: path where
  "pack_mcmeta = [''pack.mcmeta'']"

text \<open>\<open>json['pack'][key] = new\<close>: the inner dict is the one the document holds.\<close>

definition set_pack_item :: "json \<Rightarrow> string \<Rightarrow> json \<Rightarrow> error + json" where
  "set_pack_item json key new =
     (case py_getitem json ''pack'' of
        Inl e \<Rightarrow> Inl e
      | Inr pack \<Rightarrow>
          (case py_setitem pack key new of
             Inl e \<Rightarrow> Inl e
           | Inr pack' \<Rightarrow> py_setitem json ''pack'' pack'))"

text \<open>An offered default for one key of \<open>pack\<close>: set when the operator accepts.\<close>

definition offer_default ::
  "question \<Rightarrow> json \<Rightarrow> string \<Rightarrow> json \<Rightarrow> world \<Rightarrow> (error + json) \<times> world" where
  "offer_default q json key new w =
     (case ask q w of
        (Inl e, w') \<Rightarrow> (Inl e, w')
      | (Inr answer, w') \<Rightarrow>
          if answer
          then (case set_pack_item json key new of
                  Inl e \<Rightarrow> (Inl e, w')
                | Inr json' \<Rightarrow> (Inr json', w'))
          else (Inr json, w'))"

text \<open>Lines 82 to 86: the \<open>description\<close> key, then the file is written again.\<close>

definition mcmeta_description :: "json \<Rightarrow> world \<Rightarrow> (error + unit) \<times> world" where
  "mcmeta_description json w =
     (case py_getitem json ''pack'' of
        Inl e \<Rightarrow> (Inl e, w)
      | Inr pack \<Rightarrow>
          (case py_in ''description'' pack of
             Inl e \<Rightarrow> (Inl e, w)
           | Inr has_description \<Rightarrow>
               if has_description then (Inr (), dump json pack_mcmeta w)
               else (case offer_default McmetaNoDescription json ''description''
                            (JStr ''Fixed by WingedSeal-Bot'') w of
                       (Inl e, w') \<Rightarrow> (Inl e, w')
                     | (Inr json', w') \<Rightarrow> (Inr (), dump json' pack_mcmeta w'))))"

text \<open>
  Lines 72 to 80: the \<open>pack_format\<close> key. \<open>type(...) == int\<close> holds for an \<open>int\<close> only (a
  \<open>bool\<close> has the type \<open>bool\<close>).
\<close>

definition mcmeta_pack_format :: "json \<Rightarrow> world \<Rightarrow> (error + unit) \<times> world" where
  "mcmeta_pack_format json w =
     (case py_getitem json ''pack'' of
        Inl e \<Rightarrow> (Inl e, w)
      | Inr pack \<Rightarrow>
          (case py_in ''pack_format'' pack of
             Inl e \<Rightarrow> (Inl e, w)
           | Inr has_pack_format \<Rightarrow>
               if \<not> has_pack_format
               then (case offer_default McmetaNoPackFormat json ''pack_format'' (JInt 8) w of
                       (Inl e, w') \<Rightarrow> (Inl e, w')
                     | (Inr json', w') \<Rightarrow> mcmeta_description json' w')
               else (case py_getitem pack ''pack_format'' of
                       Inl e \<Rightarrow> (Inl e, w)
                     | Inr (JInt n) \<Rightarrow> mcmeta_description json w
                     | Inr v \<Rightarrow>
                         (case offer_default McmetaPackFormatNotWhole json ''pack_format'' (JInt 8) w of
                            (Inl e, w') \<Rightarrow> (Inl e, w')
                          | (Inr json', w') \<Rightarrow> mcmeta_description json' w'))))"

text \<open>
  Lines 67 to 71: the \<open>pack\<close> key. \<open>json\<close> is \<open>None\<close> when \<open>load\<close> failed and the reset was
  declined: the name \<open>json\<close> is then unbound, and reading it raises \<open>UnboundLocalError\<close>.
\<close>

definition mcmeta_pack :: "json option \<Rightarrow> world \<Rightarrow> (error + unit) \<times> world" where
  "mcmeta_pack loaded w =
     (case loaded of
        None \<Rightarrow> (Inl (Uncaught UnboundLocalError), w)
      | Some json \<Rightarrow>
          (case py_in ''pack'' json of
             Inl e \<Rightarrow> (Inl e, w)
           | Inr has_pack \<Rightarrow>
               if has_pack then mcmeta_pack_format json w
               else (case ask McmetaNoPack w of
                       (Inl e, w') \<Rightarrow> (Inl e, w')
                     | (Inr answer, w') \<Rightarrow>
                         if answer then (Inr (), dump DEFAULT_JSON pack_mcmeta w')
                         else mcmeta_pack_format json w')))"

definition check_pack_mcmeta :: "world \<Rightarrow> (error + unit) \<times> world" where
  "check_pack_mcmeta w =
     (case files w pack_mcmeta of
        None \<Rightarrow> (Inl (Uncaught OSError), w)
      | Some Undecodable \<Rightarrow> (Inl (Uncaught UnicodeDecodeError), w)
      | Some (Doc json) \<Rightarrow> mcmeta_pack (Some json) w
      | Some Malformed \<Rightarrow>
          (case ask McmetaMalformed w of
             (Inl e, w') \<Rightarrow> (Inl e, w')
           | (Inr answer, w') \<Rightarrow>
               if answer then (Inr (), dump DEFAULT_JSON pack_mcmeta w')
               else mcmeta_pack None w'))"

section \<open>File extensions and the document loader\<close>

definition check_non_json :: "path \<Rightarrow> world \<Rightarrow> (error + unit) \<times> world" where
  "check_non_json file_path w =
     (if path_suffix file_path \<noteq> ''.json''
      then (case ask (NotJsonFile (path_name file_path)) w of
              (Inl e, w') \<Rightarrow> (Inl e, w')
            | (Inr answer, w') \<Rightarrow>
                if answer
                then (if str_endswith (path_stem file_path) ''.json''
                      then rename file_path (path_parent file_path @ [path_stem file_path]) w'
                      else rename file_path
                             (path_parent file_path @ [path_stem file_path @ ''.json'']) w')
                else (Inr (), w'))
      else (Inr (), w))"

definition check_non_png :: "path \<Rightarrow> world \<Rightarrow> (error + unit) \<times> world" where
  "check_non_png file_path w =
     (if path_suffix file_path \<noteq> ''.png''
      then (case ask (NotPngFile (path_name file_path)) w of
              (Inl e, w') \<Rightarrow> (Inl e, w')
            | (Inr answer, w') \<Rightarrow>
                if answer
                then (if str_endswith (path_stem file_path) ''.json''
                      then rename file_path (path_parent file_path @ [path_stem file_path]) w'
                      else rename file_path
                             (path_parent file_path @ [path_stem file_path @ ''.png'']) w')
                else (Inr (), w'))
      else (Inr (), w))"

definition check_json_error :: "path \<Rightarrow> world \<Rightarrow> error + json" where
  "check_json_error file_path w =
     (case files w file_path of
        None \<Rightarrow> Inl (Uncaught OSError)
      | Some Undecodable \<Rightarrow> Inl (Uncaught UnicodeDecodeError)
      | Some Malformed \<Rightarrow> Inl (NoQuickFix (MalformedJson file_path))
      | Some (Doc json) \<Rightarrow> Inr json)"

section \<open>The model document classifier\<close>

definition is_vanilla_json :: "path \<Rightarrow> json \<Rightarrow> error + bool" where
  "is_vanilla_json file_path json =
     (case py_in ''textures'' json of
        Inl e \<Rightarrow> Inl e
      | Inr has_textures \<Rightarrow>
          if \<not> has_textures then Inl (ResourcePackError (TexturesKeyNotFound file_path))
          else (case py_in ''parent'' json of
                  Inl e \<Rightarrow> Inl e
                | Inr has_parent \<Rightarrow>
                    if \<not> has_parent then Inr False
                    else (case py_getitem json ''textures'' of
                            Inl e \<Rightarrow> Inl e
                          | Inr textures \<Rightarrow>
                              (case py_in ''layer0'' textures of
                                 Inl e \<Rightarrow> Inl e
                               | Inr has_layer0 \<Rightarrow>
                                   if \<not> has_layer0 then Inr False
                                   else (case py_getitem textures ''layer0'' of
                                           Inl e \<Rightarrow> Inl e
                                         | Inr layer0 \<Rightarrow>
                                             Inr (layer0 = JStr (''item/'' @ path_stem file_path)))))))"

section \<open>The override-list validator\<close>

text \<open>\<open>override["predicate"]["custom_model_data"]\<close>.\<close>

definition get_custom_model_data :: "json \<Rightarrow> error + json" where
  "get_custom_model_data override =
     (case py_getitem override ''predicate'' of
        Inl e \<Rightarrow> Inl e
      | Inr predicate \<Rightarrow> py_getitem predicate ''custom_model_data'')"

text \<open>The list comprehension of line 128: it stops at the first entry that raises.\<close>

fun all_custom_model_data :: "json list \<Rightarrow> error + json list" where
  "all_custom_model_data [] = Inr []"
| "all_custom_model_data (override # rest) =
     (case get_custom_model_data override of
        Inl e \<Rightarrow> Inl e
      | Inr number \<Rightarrow>
          (case all_custom_model_data rest of
             Inl e \<Rightarrow> Inl e
           | Inr numbers \<Rightarrow> Inr (number # numbers)))"

text \<open>
  The \<open>try\<close> block of lines 126 to 131: \<open>json["overrides"][0]\<close> raises \<open>IndexError\<close> on an
  empty list, and of all exceptions only a \<open>KeyError\<close> becomes a \<open>NoQuickFix\<close>, whose
  message is the missing key.
\<close>

fun except_KeyError :: "error + 'a \<Rightarrow> error + 'a" where
  "except_KeyError (Inl (Uncaught (KeyError key))) = Inl (NoQuickFix (MissingKey key))"
| "except_KeyError r = r"

definition try_custom_model_data :: "json list \<Rightarrow> error + json list" where
  "try_custom_model_data overrides =
     except_KeyError
       (case overrides of
          [] \<Rightarrow> Inl (Uncaught IndexError)
        | first # rest \<Rightarrow>
            (case get_custom_model_data first of
               Inl e \<Rightarrow> Inl e
             | Inr number \<Rightarrow> all_custom_model_data overrides))"

text \<open>
  The model covers the documents whose \<open>custom_model_data\<close> values are integers, as the
  format of a model document has them.
\<close>

fun as_ints :: "json list \<Rightarrow> int list option" where
  "as_ints [] = Some []"
| "as_ints (JInt n # rest) = (case as_ints rest of None \<Rightarrow> None | Some ns \<Rightarrow> Some (n # ns))"
| "as_ints (v # rest) = None"

text \<open>
  The loop of lines 133 to 139, from \<open>last_custom_model_data\<close> and the numbers still to
  be read: the number the loop raises for, if it raises.
\<close>

fun duplicate_scan :: "int \<Rightarrow> int list \<Rightarrow> int option" where
  "duplicate_scan last_custom_model_data [] = None"
| "duplicate_scan last_custom_model_data (number # rest) =
     (if number = last_custom_model_data then Some number else duplicate_scan number rest)"

text \<open>
  \<open>sorted(json["overrides"], key=...)\<close>: Python's sort is stable; the keys are the numbers
  the comprehension read from the same entries.
\<close>

definition sorted_by_custom_model_data :: "int list \<Rightarrow> json list \<Rightarrow> json list" where
  "sorted_by_custom_model_data numbers overrides = map snd (sort_key fst (zip numbers overrides))"

text \<open>
  The loop of lines 147 to 149 with the comprehension of line 151: each entry's \<open>model\<close>
  goes through \<open>fix_name\<close>, and the names it returns are the result.
\<close>

fun fix_models :: "json list \<Rightarrow> world \<Rightarrow> (error + string list) \<times> world" where
  "fix_models [] w = (Inr [], w)"
| "fix_models (override # rest) w =
     (case py_getitem override ''model'' of
        Inl e \<Rightarrow> (Inl e, w)
      | Inr model \<Rightarrow>
          (case fix_name_value model w of
             (Inl e, w') \<Rightarrow> (Inl e, w')
           | (Inr (is_new, new_name), w') \<Rightarrow>
               (case fix_models rest w' of
                  (Inl e, w'') \<Rightarrow> (Inl e, w'')
                | (Inr names, w'') \<Rightarrow> (Inr (new_name # names), w''))))"

text \<open>
  Lines 140 to 145. Two lists of overrides that differ as values differ for Python's
  \<open>!=\<close> too: the sorted list is a rearrangement of the same entries, and where the two
  first differ the entries have different numbers.
\<close>

definition rearrange :: "path \<Rightarrow> json \<Rightarrow> json list \<Rightarrow> json list \<Rightarrow> world \<Rightarrow> (error + json list) \<times> world" where
  "rearrange file_path json overrides sorted_overrides w =
     (if overrides \<noteq> sorted_overrides
      then (case ask (NotAscending file_path) w of
              (Inl e, w') \<Rightarrow> (Inl e, w')
            | (Inr answer, w') \<Rightarrow>
                if answer
                then (case py_setitem json ''overrides'' (JArr sorted_overrides) of
                        Inl e \<Rightarrow> (Inl e, w')
                      | Inr json' \<Rightarrow> (Inr sorted_overrides, dump json' file_path w'))
                else (Inr overrides, w'))
      else (Inr overrides, w))"

definition check_vanilla_json :: "path \<Rightarrow> json \<Rightarrow> world \<Rightarrow> (error + string list) \<times> world" where
  "check_vanilla_json file_path json w =
     (case py_in ''overrides'' json of
        Inl e \<Rightarrow> (Inl e, w)
      | Inr has_overrides \<Rightarrow>
          if \<not> has_overrides then (Inl (NoQuickFix (OverridesKeyNotFound file_path)), w)
          else (case py_getitem json ''overrides'' of
                  Inl e \<Rightarrow> (Inl e, w)
                | Inr (JArr overrides) \<Rightarrow>
                    (case try_custom_model_data overrides of
                       Inl e \<Rightarrow> (Inl e, w)
                     | Inr custom_model_data \<Rightarrow>
                         (case as_ints custom_model_data of
                            None \<Rightarrow> (Inl OutsideModel, w)
                          | Some numbers \<Rightarrow>
                              (case duplicate_scan (- 1) numbers of
                                 Some number \<Rightarrow>
                                   (Inl (NoQuickFix (DuplicateCustomModelData number file_path)), w)
                               | None \<Rightarrow>
                                   (case rearrange file_path json overrides
                                           (sorted_by_custom_model_data numbers overrides) w of
                                      (Inl e, w') \<Rightarrow> (Inl e, w')
                                    | (Inr overrides', w') \<Rightarrow> fix_models overrides' w'))))
                | Inr v \<Rightarrow> (Inl (NoQuickFix (OverridesNotList file_path)), w)))"

section \<open>The custom-document validator\<close>

subsection \<open>\<open>json.dumps\<close>\<close>

text \<open>
  The encoder with its defaults (\<open>ensure_ascii\<close>, the separators \<open>", "\<close> and
  \<open>": "\<close>): in a string, the quote, the backslash and the five named control characters
  are escaped by a backslash, every other character outside \<open>' '..'~'\<close> as \<open>\u00XX\<close>.
\<close>

definition hex_digit :: "nat \<Rightarrow> char" where
  "hex_digit n = ''0123456789abcdef'' ! (n mod 16)"

definition escape_char :: "char \<Rightarrow> string" where
  "escape_char c =
     (if c = CHR 0x22 then [CHR 0x5C, CHR 0x22]
      else if c = CHR 0x5C then [CHR 0x5C, CHR 0x5C]
      else if c = CHR 0x08 then [CHR 0x5C, CHR ''b'']
      else if c = CHR 0x0C then [CHR 0x5C, CHR ''f'']
      else if c = CHR 0x0A then [CHR 0x5C, CHR ''n'']
      else if c = CHR 0x0D then [CHR 0x5C, CHR ''r'']
      else if c = CHR 0x09 then [CHR 0x5C, CHR ''t'']
      else if (of_char c :: nat) < 32 \<or> 126 < (of_char c :: nat)
      then [CHR 0x5C, CHR ''u'', CHR ''0'', CHR ''0'',
            hex_digit ((of_char c :: nat) div 16), hex_digit (of_char c :: nat)]
      else [c])"

definition dumps_str :: "string \<Rightarrow> string" where
  "dumps_str s = CHR 0x22 # concat (map escape_char s) @ [CHR 0x22]"

function nat_repr :: "nat \<Rightarrow> string" where
  "nat_repr n =
     (if n < 10 then [''0123456789'' ! n] else nat_repr (n div 10) @ [''0123456789'' ! (n mod 10)])"
  by pat_completeness auto
termination
  by (relation "measure (\<lambda>n. n)") auto

definition int_repr :: "int \<Rightarrow> string" where
  "int_repr i = (if i < 0 then CHR ''-'' # nat_repr (nat (- i)) else nat_repr (nat i))"

fun join_comma :: "string list \<Rightarrow> string" where
  "join_comma [] = []"
| "join_comma [s] = s"
| "join_comma (s # t # ts) = s @ '', '' @ join_comma (t # ts)"

fun dumps :: "json \<Rightarrow> string"
  and dumps_items :: "json list \<Rightarrow> string list"
  and dumps_members :: "(string \<times> json) list \<Rightarrow> string list" where
  "dumps JNull = ''null''"
| "dumps (JBool b) = (if b then ''true'' else ''false'')"
| "dumps (JInt i) = int_repr i"
| "dumps (JStr s) = dumps_str s"
| "dumps (JArr xs) = ''['' @ join_comma (dumps_items xs) @ '']''"
| "dumps (JObj kvs) = ''{'' @ join_comma (dumps_members kvs) @ ''}''"
| "dumps_items [] = []"
| "dumps_items (x # xs) = dumps x # dumps_items xs"
| "dumps_members [] = []"
| "dumps_members ((k, v) # kvs) = (dumps_str k @ '': '' @ dumps v) # dumps_members kvs"

subsection \<open>\<open>check_custom_json\<close>\<close>

text \<open>
  The dict comprehension of lines 166 and 167: for every slot, in order, its key, the
  texture the document has (a \<open>str\<close>, or \<open>fix_name\<close> has raised) and the texture
  \<open>fix_name\<close> returns.
\<close>

fun str_value :: "json \<Rightarrow> string" where
  "str_value (JStr s) = s"
| "str_value v = []"

fun fix_textures ::
  "(string \<times> json) list \<Rightarrow> world \<Rightarrow> (error + (string \<times> string \<times> string) list) \<times> world" where
  "fix_textures [] w = (Inr [], w)"
| "fix_textures ((key, texture) # rest) w =
     (case fix_name_value texture w of
        (Inl e, w') \<Rightarrow> (Inl e, w')
      | (Inr (is_new, new_name), w') \<Rightarrow>
          (case fix_textures rest w' of
             (Inl e, w'') \<Rightarrow> (Inl e, w'')
           | (Inr fixed, w'') \<Rightarrow>
               (Inr ((key, str_value texture, new_name) # fixed), w'')))"

definition old_textures :: "(string \<times> string \<times> string) list \<Rightarrow> string list" where
  "old_textures fixed = map (\<lambda>(key, old, new). old) fixed"

definition new_textures :: "(string \<times> string \<times> string) list \<Rightarrow> string list" where
  "new_textures fixed = map (\<lambda>(key, old, new). new) fixed"

definition fixed_textures :: "(string \<times> string \<times> string) list \<Rightarrow> json" where
  "fixed_textures fixed = JObj (map (\<lambda>(key, old, new). (key, JStr new)) fixed)"

text \<open>
  Lines 168 to 172. The two dicts have the same keys in the same order, so they differ
  where a texture differs from its fixed name.
\<close>

definition rewrite_textures ::
  "path \<Rightarrow> json \<Rightarrow> (string \<times> string \<times> string) list \<Rightarrow> world \<Rightarrow> (error + string list) \<times> world" where
  "rewrite_textures file_path json fixed w =
     (if old_textures fixed \<noteq> new_textures fixed
      then (case ask (InvalidTextures file_path) w of
              (Inl e, w') \<Rightarrow> (Inl e, w')
            | (Inr answer, w') \<Rightarrow>
                if answer
                then (case py_setitem json ''textures'' (fixed_textures fixed) of
                        Inl e \<Rightarrow> (Inl e, w')
                      | Inr json' \<Rightarrow> (Inr (new_textures fixed), dump json' file_path w'))
                else (Inr (old_textures fixed), w'))
      else (Inr (old_textures fixed), w))"

definition check_custom_json :: "path \<Rightarrow> json \<Rightarrow> world \<Rightarrow> (error + string list) \<times> world" where
  "check_custom_json file_path json w =
     (case py_getitem json ''textures'' of
        Inl e \<Rightarrow> (Inl e, w)
      | Inr (JObj slots) \<Rightarrow>
          (case py_in ''elements'' json of
             Inl e \<Rightarrow> (Inl e, w)
           | Inr has_elements \<Rightarrow>
               if \<not> has_elements then (Inl (NoQuickFix (ElementsKeyNotFound file_path)), w)
               else if str_contains (dumps json) (CHR 0x22 # ''#missing'')
               then (Inl (NoQuickFix (MissingTexture file_path)), w)
               else (case fix_textures slots w of
                       (Inl e, w') \<Rightarrow> (Inl e, w')
                     | (Inr fixed, w') \<Rightarrow> rewrite_textures file_path json fixed w'))
      | Inr v \<Rightarrow> (Inl (NoQuickFix (TexturesNotJson file_path)), w))"

section \<open>The reconciliation engine\<close>

definition texture_dir :: path where
  "texture_dir = [''assets'', ''minecraft'', ''textures'']"

definition model_dir :: path where
  "model_dir = [''assets'', ''minecraft'', ''models'']"

definition item_dir :: path where
  "item_dir = model_dir @ [''item'']"

text \<open>
  \<open>file_path.relative_to(dir).parent.as_posix() + '/' + file_path.stem\<close>, from the path
  relative to \<open>dir\<close>.
\<close>

definition file_identifier :: "path \<Rightarrow> string" where
  "file_identifier rel = as_posix (path_parent rel) @ ''/'' @ path_stem rel"

text \<open>
  Lines 206 to 209 and 219 to 222: the name of the file below the pack root goes through
  \<open>fix_name\<close>, and the file is renamed when a new name comes back.
\<close>

definition fix_file_name :: "path \<Rightarrow> world \<Rightarrow> (error + unit) \<times> world" where
  "fix_file_name file_path w =
     (case fix_name (as_posix file_path) w of
        (Inl e, w') \<Rightarrow> (Inl e, w')
      | (Inr (is_new, new_name), w') \<Rightarrow>
          if is_new then rename file_path (path_of_posix new_name) w' else (Inr (), w'))"

text \<open>
  The two loops over \<open>glob('**/*')\<close>. What the generator yields is an argument: the paths
  relative to the directory that is walked, in the order they are visited.
\<close>

fun walk_textures :: "path list \<Rightarrow> string set \<Rightarrow> world \<Rightarrow> (error + string set) \<times> world" where
  "walk_textures [] set_of_textures_file w = (Inr set_of_textures_file, w)"
| "walk_textures (rel # rest) set_of_textures_file w =
     (if \<not> is_file w (texture_dir @ rel) then walk_textures rest set_of_textures_file w
      else (case check_non_png (texture_dir @ rel) w of
              (Inl e, w1) \<Rightarrow> (Inl e, w1)
            | (Inr u, w1) \<Rightarrow>
                (case fix_file_name (texture_dir @ rel) w1 of
                   (Inl e, w2) \<Rightarrow> (Inl e, w2)
                 | (Inr u', w2) \<Rightarrow>
                     walk_textures rest (insert (file_identifier rel) set_of_textures_file) w2)))"

text \<open>
  The accumulator of the second loop: \<open>set_of_model_key\<close>, \<open>set_of_model_file\<close> and
  \<open>set_of_textures_key\<close>.
\<close>

fun walk_models ::
  "path list \<Rightarrow> string set \<times> string set \<times> string set \<Rightarrow> world
     \<Rightarrow> (error + string set \<times> string set \<times> string set) \<times> world" where
  "walk_models [] sets w = (Inr sets, w)"
| "walk_models (rel # rest) (set_of_model_key, set_of_model_file, set_of_textures_key) w =
     (if \<not> is_file w (item_dir @ rel)
      then walk_models rest (set_of_model_key, set_of_model_file, set_of_textures_key) w
      else (case check_non_json (item_dir @ rel) w of
              (Inl e, w1) \<Rightarrow> (Inl e, w1)
            | (Inr u, w1) \<Rightarrow>
                (case check_json_error (item_dir @ rel) w1 of
                   Inl e \<Rightarrow> (Inl e, w1)
                 | Inr json \<Rightarrow>
                     (case fix_file_name (item_dir @ rel) w1 of
                        (Inl e, w2) \<Rightarrow> (Inl e, w2)
                      | (Inr u', w2) \<Rightarrow>
                          (case is_vanilla_json (item_dir @ rel) json of
                             Inl e \<Rightarrow> (Inl e, w2)
                           | Inr vanilla \<Rightarrow>
                               if vanilla
                               then (case check_vanilla_json (item_dir @ rel) json w2 of
                                       (Inl e, w3) \<Rightarrow> (Inl e, w3)
                                     | (Inr models, w3) \<Rightarrow>
                                         walk_models rest
                                           (set_of_model_key \<union> set models, set_of_model_file,
                                            set_of_textures_key) w3)
                               else (case check_custom_json (item_dir @ rel) json w2 of
                                       (Inl e, w3) \<Rightarrow> (Inl e, w3)
                                     | (Inr textures, w3) \<Rightarrow>
                                         walk_models rest
                                           (set_of_model_key,
                                            insert (file_identifier (''item'' # rel)) set_of_model_file,
                                            set_of_textures_key \<union> set textures) w3))))))"

text \<open>Lines 233 to 245: the list \<open>strings\<close>, one entry for every difference that is not empty.\<close>

definition unmatched_names ::
  "string set \<Rightarrow> string set \<Rightarrow> string set \<Rightarrow> string set \<Rightarrow> mismatch list" where
  "unmatched_names set_of_model_key set_of_model_file set_of_textures_key set_of_textures_file =
     (if set_of_model_key - set_of_model_file \<noteq> {}
      then [ModelKeysNotFound (set_of_model_key - set_of_model_file)] else []) @
     (if set_of_model_file - set_of_model_key \<noteq> {}
      then [UnusedModelFiles (set_of_model_file - set_of_model_key)] else []) @
     (if set_of_textures_key - set_of_textures_file \<noteq> {}
      then [TextureKeysNotFound (set_of_textures_key - set_of_textures_file)] else []) @
     (if set_of_textures_file - set_of_textures_key \<noteq> {}
      then [UnusedTextureFiles (set_of_textures_file - set_of_textures_key)] else [])"

definition check_files :: "path list \<Rightarrow> path list \<Rightarrow> world \<Rightarrow> (error + unit) \<times> world" where
  "check_files texture_glob item_glob w =
     (if \<not> is_dir w item_dir then (Inl (ResourcePackError ItemDirNotFound), w)
      else if \<not> is_dir w texture_dir then (Inl (ResourcePackError TexturesDirNotFound), w)
      else (case walk_textures texture_glob {} w of
              (Inl e, w1) \<Rightarrow> (Inl e, w1)
            | (Inr set_of_textures_file, w1) \<Rightarrow>
                (case walk_models item_glob ({}, {}, {}) w1 of
                   (Inl e, w2) \<Rightarrow> (Inl e, w2)
                 | (Inr (set_of_model_key, set_of_model_file, set_of_textures_key), w2) \<Rightarrow>
                     if unmatched_names set_of_model_key set_of_model_file
                          set_of_textures_key set_of_textures_file \<noteq> []
                     then (Inl (NoQuickFix (UnmatchedNames
                                  (unmatched_names set_of_model_key set_of_model_file
                                     set_of_textures_key set_of_textures_file))), w2)
                     else (Inr (), w2))))"

section \<open>The exception handlers of \<open>diagnose\<close>\<close>

text \<open>
  What \<open>diagnose\<close> does with an exception \<open>_diagnose\<close> raises. A \<open>ResourcePackError\<close> is
  printed and the run waits for enter to exit. A \<open>NoQuickFix\<close> is printed with the advice
  to fix the part by hand, and after enter \<open>diagnose()\<close> is called without its argument,
  which raises \<open>TypeError\<close> inside the handler. Every other exception has its traceback
  printed before the run waits for enter to exit.
\<close>

definition diagnose_except :: "error \<Rightarrow> world \<Rightarrow> (error + unit) \<times> world" where
  "diagnose_except err w =
     (case err of
        ResourcePackError f \<Rightarrow>
          (Inr (), w\<lparr>trace := trace w @ [PrintedError err, PressEnterToExit]\<rparr>)
      | NoQuickFix p \<Rightarrow>
          (Inl (Uncaught TypeError),
           w\<lparr>is_error_exist := True,
             trace := trace w @ [PrintedError err, PrintedNoQuickFix, PressEnterToTryAgain]\<rparr>)
      | Uncaught x \<Rightarrow>
          (Inr (), w\<lparr>trace := trace w @ [PrintedTraceback x, PressEnterToExit]\<rparr>)
      | OutsideModel \<Rightarrow> (Inl OutsideModel, w))"

section \<open>Sample runs and documents\<close>

text \<open>
  A run that has not asked anything yet, in an empty pack; the same run with lines waiting
  on standard input; and the same run in the mode that accepts every fix.
\<close>

definition quiet_world :: world where
  "quiet_world = \<lparr>AUTO_FIX = False, is_error_exist = False, stdin = [], trace = [],
                   files = (\<lambda>p. None), dirs = {}\<rparr>"

definition answering :: "string list \<Rightarrow> world" where
  "answering lines = quiet_world\<lparr>stdin := lines\<rparr>"

definition auto_fixing :: world where
  "auto_fixing = quiet_world\<lparr>AUTO_FIX := True\<rparr>"

text \<open>Events of the trace, by kind.\<close>

fun is_Dumped :: "event \<Rightarrow> bool" where
  "is_Dumped (Dumped p j) = True"
| "is_Dumped e = False"

fun is_reorder_prompt :: "event \<Rightarrow> bool" where
  "is_reorder_prompt (Asked (NotAscending p)) = True"
| "is_reorder_prompt e = False"

fun is_name_prompt :: "event \<Rightarrow> bool" where
  "is_name_prompt (Asked (InvalidFileName s)) = True"
| "is_name_prompt NotUnderstood = True"
| "is_name_prompt e = False"

text \<open>
  The model file \<open>sword.json\<close>, an override entry, and a document of the standard shape
  around a list of overrides.
\<close>

definition sword_json :: path where
  "sword_json = [''assets'', ''minecraft'', ''models'', ''item'', ''sword.json'']"

definition override :: "int \<Rightarrow> string \<Rightarrow> json" where
  "override number model =
     JObj [(''predicate'', JObj [(''custom_model_data'', JInt number)]), (''model'', JStr model)]"

definition vanilla_doc :: "json list \<Rightarrow> json" where
  "vanilla_doc overrides =
     JObj [(''parent'', JStr ''item/handheld''),
           (''textures'', JObj [(''layer0'', JStr ''item/sword'')]),
           (''overrides'', JArr overrides)]"

text \<open>
  A document whose \<open>layer0\<close> names the file but that has no \<open>parent\<close>, a document
  without \<open>textures\<close>, and a second model file.
\<close>

definition no_parent_doc :: json where
  "no_parent_doc =
     JObj [(''textures'', JObj [(''layer0'', JStr ''item/sword'')]),
           (''overrides'', JArr [override 1 ''item/sword_1''])]"

definition no_textures_doc :: json where
  "no_textures_doc = JObj [(''parent'', JStr ''item/handheld''), (''elements'', JArr [])]"

definition axe_json :: path where
  "axe_json = [''assets'', ''minecraft'', ''models'', ''item'', ''axe.json'']"

text \<open>
  A pack whose \<open>pack.mcmeta\<close> has the given content, with the given lines waiting on
  standard input; a metadata document without \<open>pack_format\<close>; the model file \<open>foo.json\<close>
  and a document of the custom shape with one texture slot.
\<close>

definition pack_with :: "content \<Rightarrow> string list \<Rightarrow> world" where
  "pack_with c lines = quiet_world\<lparr>stdin := lines, files := (\<lambda>p. None)(pack_mcmeta := Some c)\<rparr>"

definition no_pack_format_doc :: json where
  "no_pack_format_doc = JObj [(''pack'', JObj [(''description'', JStr ''My pack'')])]"

definition foo_json :: path where
  "foo_json = [''assets'', ''minecraft'', ''models'', ''item'', ''foo.json'']"

definition custom_doc :: "string \<Rightarrow> json" where
  "custom_doc texture = JObj [(''textures'', JObj [(''0'', JStr texture)]), (''elements'', JArr [])]"

text \<open>
  What a run from one state to a later one has read from standard input and added to the
  trace; the lines that decline an offered fix; the normal form of a name; an override
  with a given number.
\<close>

definition consumed_input :: "world \<Rightarrow> world \<Rightarrow> string list" where
  "consumed_input w w' = take (length (stdin w) - length (stdin w')) (stdin w)"

definition new_events :: "world \<Rightarrow> world \<Rightarrow> event list" where
  "new_events w w' = drop (length (trace w)) (trace w')"

definition declines :: "string \<Rightarrow> bool" where
  "declines line = (str_lower line \<in> set [''no'', ''n''])"

definition normal_form :: "string \<Rightarrow> string" where
  "normal_form s = str_lower (replace_space s)"

definition has_custom_model_data :: "int \<Rightarrow> json \<Rightarrow> bool" where
  "has_custom_model_data number entry = (get_custom_model_data entry = Inr (JInt number))"

text \<open>
  A pack with one texture, one custom model that uses it and one standard model that
  refers to the custom model.
\<close>

definition sample_pack :: world where
  "sample_pack =
     quiet_world\<lparr>
       files := (\<lambda>p. None)
         (texture_dir @ [''item'', ''foo.png''] := Some Undecodable,
          foo_json := Some (Doc (custom_doc ''item/foo'')),
          sword_json := Some (Doc (vanilla_doc [override 1 ''item/foo'']))),
       dirs := {[''assets''], [''assets'', ''minecraft''], model_dir, item_dir, texture_dir,
                texture_dir @ [''item'']}\<rparr>"

text \<open>
  Two override lists for the reordering: one out of order, with the number \<open>2\<close> twice, and
  the same entries in ascending order, the two entries with the number \<open>2\<close> in the order
  they had.
\<close>

definition shuffled_overrides :: "json list" where
  "shuffled_overrides = [override 2 ''item/a'', override 1 ''item/b'', override 2 ''item/c'']"

definition ascending_overrides :: "json list" where
  "ascending_overrides = [override 1 ''item/b'', override 2 ''item/a'', override 2 ''item/c'']"

text \<open>An override list that is in ascending order as the document has it.\<close>

definition ordered_overrides :: "json list" where
  "ordered_overrides = [override 1 ''item/a'', override 2 ''item/b'']"

text \<open>The texture strings of the slots of a \<open>textures\<close> object, in the order of the document.\<close>

definition slot_textures :: "(string \<times> json) list \<Rightarrow> string list" where
  "slot_textures slots = map (\<lambda>slot. str_value (snd slot)) slots"

section \<open>Facts about strings and the prompt\<close>

lemmas char_defs = isupper_char_def islower_char_def lower_char_def Let_def uppercase_def
  lowercase_def

lemmas str_defs = str_lower_def str_islower_def replace_space_def has_upper_or_space_def
  has_cased_def normalized_def

lemmas sample_defs = quiet_world_def answering_def auto_fixing_def

text \<open>The table of \<open>lower_char\<close> has every uppercase character.\<close>

lemma upper_in_table: "isupper_char c \<Longrightarrow> c \<in> set uppercase"
proof -
  assume "isupper_char c"
  then have "(of_char c :: nat) \<in> of_char ` set uppercase"
    unfolding isupper_char_def Let_def uppercase_def
    by simp arith
  then show ?thesis
    by (auto simp: of_char_eq_iff)
qed

lemma lower_char_not_upper: "\<not> isupper_char (lower_char c)"
proof (cases "isupper_char c")
  case True
  then have "c \<in> set uppercase" by (rule upper_in_table)
  then show ?thesis
    unfolding uppercase_def lowercase_def lower_char_def isupper_char_def Let_def
    by auto
next
  case False
  then show ?thesis by (simp add: lower_char_def)
qed

lemma lower_char_space: "lower_char c = CHR '' '' \<longleftrightarrow> c = CHR '' ''"
proof (cases "isupper_char c")
  case True
  then have "c \<in> set uppercase" by (rule upper_in_table)
  then show ?thesis
    unfolding uppercase_def lowercase_def lower_char_def isupper_char_def Let_def
    by auto
next
  case False
  then show ?thesis by (simp add: lower_char_def)
qed

lemma lower_char_id: "\<not> isupper_char c \<Longrightarrow> lower_char c = c"
  by (simp add: lower_char_def)

lemma space_lower_char: "CHR '' '' = lower_char c \<longleftrightarrow> c = CHR '' ''"
  using lower_char_space [of c] by (simp add: eq_commute)

lemma normalized_lower_replace: "normalized (str_lower (replace_space s))"
  by (auto simp: str_defs list_ex_iff lower_char_not_upper lower_char_space space_lower_char
      split: if_splits)

lemma islower_iff:
  "has_cased s \<Longrightarrow> (str_islower s \<and> CHR '' '' \<notin> set s) = (\<not> has_upper_or_space s)"
  by (auto simp: str_defs list_ex_iff)

lemma islower_normalized: "str_islower s \<Longrightarrow> CHR '' '' \<notin> set s \<Longrightarrow> normalized s"
  by (simp add: str_defs)

lemma normalized_fixpoint: "normalized s \<Longrightarrow> str_lower (replace_space s) = s"
  by (induction s) (auto simp: str_defs lower_char_id)

lemma ask_auto_fix:
  "AUTO_FIX w \<Longrightarrow>
   ask q w = (Inr True, w\<lparr>is_error_exist := True, trace := trace w @ [Asked q]\<rparr>)"
  by (simp add: ask_def)

section \<open>The name normalizer: claims C2 and C5\<close>

text \<open>
  Claim C2, as stated: the flag \<open>fix_name\<close> returns is true if and only if the string has
  an uppercase character or a space. It fails where the operator declines the fix:
  \<open>A\<close> has an uppercase character, and with the answer \<open>no\<close> the flag is false and the
  string comes back unchanged.
\<close>

theorem fix_name_declined_counterexample:
  "has_upper_or_space ''A'' \<and> fst (fix_name ''A'' (answering [''no''])) = Inr (False, ''A'')"
  by (simp add: fix_name_def ask_def sample_defs str_defs char_defs)

text \<open>
  Claim C2, amended: for every string of code points below U+0100 with at least one cased
  character (one that is uppercase or lowercase), \<open>fix_name\<close> asks the operator if and
  only if the string has an uppercase character or a space; the flag it returns is true
  if and only if the string has one and the operator accepts the fix; the string it
  returns is then the input with every space replaced by an underscore and every
  character in lower case, and the input itself otherwise.
\<close>

theorem fix_name_flag:
  assumes "has_cased s" and "fix_name s w = (Inr (needs_fix, new), w')"
  shows "(needs_fix \<longleftrightarrow> has_upper_or_space s \<and> fst (ask (InvalidFileName s) w) = Inr True)
       \<and> new = (if needs_fix then str_lower (replace_space s) else s)
       \<and> w' = (if has_upper_or_space s then snd (ask (InvalidFileName s) w) else w)"
proof (cases "has_upper_or_space s")
  case True
  with assms(1) have "\<not> (str_islower s \<and> CHR '' '' \<notin> set s)"
    using islower_iff by blast
  with assms(2) True show ?thesis
    by (auto simp: fix_name_def split: prod.splits sum.splits if_splits)
next
  case False
  with assms(1) have "str_islower s \<and> CHR '' '' \<notin> set s"
    using islower_iff by blast
  with assms(2) False show ?thesis
    by (auto simp: fix_name_def)
qed

theorem fix_name_flag_witness:
  "has_cased ''My Sword''
   \<and> fst (fix_name ''My Sword'' (answering [''maybe'', ''Yes''])) = Inr (True, ''my_sword'')
   \<and> has_upper_or_space ''My Sword''
   \<and> fst (ask (InvalidFileName ''My Sword'') (answering [''maybe'', ''Yes''])) = Inr True"
proof -
  have cased: "has_cased ''My Sword''"
    by (simp add: str_defs char_defs)
  have "fst (fix_name ''My Sword'' (answering [''maybe'', ''Yes''])) = Inr (True, ''my_sword'')"
    by (simp add: fix_name_def ask_def sample_defs str_defs char_defs)
  then have run: "fix_name ''My Sword'' (answering [''maybe'', ''Yes'']) =
      (Inr (True, ''my_sword''), snd (fix_name ''My Sword'' (answering [''maybe'', ''Yes''])))"
    by (simp add: prod_eq_iff)
  from fix_name_flag [OF cased run] cased run show ?thesis
    by simp
qed

text \<open>
  The cased characters are not the ASCII letters alone: \<open>U+00C9\<close> is uppercase, so the
  string \<open>a\<close> followed by it is asked about, and its lower case is \<open>a\<close> followed by
  \<open>U+00E9\<close>.
\<close>

lemma fix_name_latin1_example:
  "fix_name (''a'' @ [CHR 0xC9]) auto_fixing =
     (Inr (True, ''a'' @ [CHR 0xE9]),
      auto_fixing\<lparr>is_error_exist := True,
                   trace := [Asked (InvalidFileName (''a'' @ [CHR 0xC9]))]\<rparr>)"
  by (simp add: fix_name_def ask_def sample_defs str_defs char_defs)

text \<open>
  Claim C5 at the string \<open>123\<close>, in the mode that accepts every fix: the string is in
  normal form (no uppercase character, no space), and still \<open>fix_name\<close> asks about it and
  returns the flag true with the string unchanged, because \<open>str.islower\<close> is false for a
  string without a letter.
\<close>

theorem fix_name_caseless_flagged:
  "normalized ''123''
   \<and> fix_name ''123'' auto_fixing =
       (Inr (True, ''123''),
        auto_fixing\<lparr>is_error_exist := True, trace := [Asked (InvalidFileName ''123'')]\<rparr>)"
  by (simp add: fix_name_def ask_def sample_defs str_defs char_defs)

text \<open>
  The strings themselves are stable: what \<open>fix_name\<close> returns for an accepted fix is in
  normal form, and lower-casing it again changes nothing.
\<close>

lemma lower_replace_twice:
  "str_lower (replace_space (str_lower (replace_space s))) = str_lower (replace_space s)"
  using normalized_lower_replace by (rule normalized_fixpoint)

section \<open>The override-list validator: claims C1 and C10\<close>

lemmas doc_defs = sword_json_def override_def vanilla_doc_def

lemma duplicate_scan_distinct_adj:
  "(duplicate_scan prev ns = None) = distinct_adj (prev # ns)"
  by (induction ns arbitrary: prev) auto

lemma getitem_in: "py_getitem json key = Inr v \<Longrightarrow> py_in key json = Inr True"
  by (cases json) (auto split: option.splits dest: map_of_SomeD simp: image_iff rev_bexI)

lemma all_custom_model_data_length:
  "all_custom_model_data os = Inr vs \<Longrightarrow> length vs = length os"
  by (induction os arbitrary: vs) (auto split: sum.splits)

lemma except_KeyError_Inr: "except_KeyError r = Inr v \<Longrightarrow> r = Inr v"
  by (cases r rule: except_KeyError.cases) auto

lemma try_custom_model_data_length:
  "try_custom_model_data os = Inr vs \<Longrightarrow> length vs = length os"
  unfolding try_custom_model_data_def
  by (auto dest!: except_KeyError_Inr all_custom_model_data_length split: list.splits sum.splits)

lemma as_ints_length: "as_ints vs = Some ns \<Longrightarrow> length ns = length vs"
  by (induction vs arbitrary: ns rule: as_ints.induct) (auto split: option.splits)

lemma sorted_noop:
  assumes "length ns = length os" and "sorted ns"
  shows "sorted_by_custom_model_data ns os = os"
proof -
  from assms have "sorted (map fst (zip ns os))"
    by simp
  then have "sort_key fst (zip ns os) = zip ns os"
    by (rule sort_key_id_if_sorted)
  with assms(1) show ?thesis
    by (simp add: sorted_by_custom_model_data_def)
qed

text \<open>What a prompt changes: the trace and the input, never the files.\<close>

lemma ask_effect:
  "ask q w = (r, w') \<Longrightarrow>
   files w' = files w \<and> dirs w' = dirs w \<and> AUTO_FIX w' = AUTO_FIX w
   \<and> (\<exists>n. trace w' = trace w @ Asked q # replicate n NotUnderstood)"
  by (auto simp: ask_def Let_def split: if_splits prod.splits)

lemma fix_name_effect:
  assumes "fix_name s w = (r, w')"
  shows "files w' = files w \<and> (\<exists>new. trace w' = trace w @ new \<and> list_all is_name_prompt new)"
proof (cases "str_islower s \<and> CHR '' '' \<notin> set s")
  case True
  with assms show ?thesis by (auto simp: fix_name_def)
next
  case False
  obtain a w1 where a: "ask (InvalidFileName s) w = (a, w1)"
    by (cases "ask (InvalidFileName s) w")
  with assms False have "w' = w1"
    by (auto simp: fix_name_def split: sum.splits if_splits)
  with ask_effect [OF a] show ?thesis
    by (auto simp: list_all_iff)
qed

lemma fix_name_value_effect:
  "fix_name_value v w = (r, w') \<Longrightarrow>
   files w' = files w \<and> (\<exists>new. trace w' = trace w @ new \<and> list_all is_name_prompt new)"
  by (cases v) (auto dest: fix_name_effect)

lemma fix_models_effect:
  "fix_models os w = (r, w') \<Longrightarrow>
   files w' = files w \<and> (\<exists>new. trace w' = trace w @ new \<and> list_all is_name_prompt new)"
proof (induction os arbitrary: w r w')
  case Nil
  then show ?case by auto
next
  case (Cons a os)
  show ?case
  proof (cases "py_getitem a ''model''")
    case (Inl e)
    with Cons.prems show ?thesis by auto
  next
    case (Inr model)
    obtain r1 w1 where s1: "fix_name_value model w = (r1, w1)"
      by (cases "fix_name_value model w")
    note e1 = fix_name_value_effect [OF s1]
    show ?thesis
    proof (cases r1)
      case (Inl e)
      with Cons.prems Inr s1 e1 show ?thesis by auto
    next
      case (Inr res)
      obtain r2 w2 where s2: "fix_models os w1 = (r2, w2)"
        by (cases "fix_models os w1")
      note e2 = Cons.IH [OF s2]
      from Cons.prems \<open>py_getitem a ''model'' = Inr model\<close> s1 Inr s2 have "w' = w2"
        by (auto split: sum.splits prod.splits)
      with e1 e2 show ?thesis
        by auto
    qed
  qed
qed

lemma name_prompts_quiet:
  "list_all is_name_prompt new \<Longrightarrow> \<not> list_ex is_Dumped new \<and> \<not> list_ex is_reorder_prompt new"
proof (induction new)
  case Nil
  then show ?case by simp
next
  case (Cons e new)
  then show ?case
    by (cases e rule: is_name_prompt.cases) auto
qed

lemmas path_defs = path_stem_def path_name_def rfind_dot_def path_suffix_def path_parent_def

text \<open>
  Claim C1 at a document with a single override whose number is \<open>-1\<close>: there is no pair of
  entries at all, and \<open>check_vanilla_json\<close> raises the duplicate error for \<open>-1\<close>, because
  the loop starts from \<open>last_custom_model_data = -1\<close>.
\<close>

theorem minus_one_flagged_duplicate:
  "try_custom_model_data [override (- 1) ''item/sword_1''] = Inr [JInt (- 1)]
   \<and> check_vanilla_json sword_json (vanilla_doc [override (- 1) ''item/sword_1'']) quiet_world
     = (Inl (NoQuickFix (DuplicateCustomModelData (- 1) sword_json)), quiet_world)"
  by (simp add: check_vanilla_json_def try_custom_model_data_def get_custom_model_data_def
      vanilla_doc_def override_def)

text \<open>
  Apart from that start value the scan is the one the claim describes: it raises exactly
  when two numbers next to each other are equal, so \<open>[1,2,2,3]\<close> is flagged for \<open>2\<close> and
  \<open>[2,1,2]\<close> is not.
\<close>

lemma duplicate_scan_examples:
  "duplicate_scan (- 1) [1, 2, 2, 3] = Some 2" "duplicate_scan (- 1) [2, 1, 2] = None"
  by simp_all

lemma duplicate_scan_adjacent:
  "ns = [] \<or> hd ns \<noteq> prev \<Longrightarrow> (duplicate_scan prev ns = None) = distinct_adj ns"
  by (cases ns) (auto simp: duplicate_scan_distinct_adj)

text \<open>
  Claim C10: when the value of \<open>overrides\<close> is the empty list, \<open>check_vanilla_json\<close> raises
  \<open>IndexError\<close> before it changes anything. That is no \<open>NoQuickFix\<close>, and \<open>diagnose\<close>
  handles it in its last clause: the traceback is printed and the run waits for enter to
  exit.
\<close>

theorem empty_overrides_uncaught:
  assumes "py_getitem json ''overrides'' = Inr (JArr [])"
  shows "check_vanilla_json file_path json w = (Inl (Uncaught IndexError), w)
       \<and> \<not> is_NoQuickFix (fst (check_vanilla_json file_path json w))
       \<and> diagnose_except (Uncaught IndexError) w =
           (Inr (), w\<lparr>trace := trace w @ [PrintedTraceback IndexError, PressEnterToExit]\<rparr>)"
proof -
  have "py_in ''overrides'' json = Inr True"
    using assms by (rule getitem_in)
  with assms show ?thesis
    by (simp add: check_vanilla_json_def try_custom_model_data_def diagnose_except_def)
qed

theorem empty_overrides_uncaught_witness:
  "is_vanilla_json sword_json (vanilla_doc []) = Inr True
   \<and> py_getitem (vanilla_doc []) ''overrides'' = Inr (JArr [])
   \<and> check_vanilla_json sword_json (vanilla_doc []) quiet_world
       = (Inl (Uncaught IndexError), quiet_world)"
proof -
  have h: "py_getitem (vanilla_doc []) ''overrides'' = Inr (JArr [])"
    by (simp add: vanilla_doc_def)
  have v: "is_vanilla_json sword_json (vanilla_doc []) = Inr True"
    by (simp add: is_vanilla_json_def vanilla_doc_def sword_json_def path_defs)
  from empty_overrides_uncaught [OF h, of sword_json quiet_world] h v show ?thesis
    by simp
qed

text \<open>Of the exceptions of the \<open>try\<close> block only a \<open>KeyError\<close> becomes a \<open>NoQuickFix\<close>.\<close>

lemma missing_key_no_quick_fix:
  "check_vanilla_json file_path (vanilla_doc [JObj [(''model'', JStr ''item/a'')]]) w
     = (Inl (NoQuickFix (MissingKey ''predicate'')), w)"
  by (simp add: check_vanilla_json_def try_custom_model_data_def get_custom_model_data_def
      vanilla_doc_def)

section \<open>The classifier: claims C3 and C6\<close>

text \<open>
  Claim C3, as stated: a document with a textures map is standard if and only if
  \<open>layer0\<close> is \<open>item/\<close> followed by the stem of the file. It fails for a document without
  the key \<open>parent\<close>: \<open>layer0\<close> is \<open>item/sword\<close> in \<open>sword.json\<close>, and the document is not
  classified as standard.
\<close>

theorem layer0_without_parent_counterexample:
  "py_getitem no_parent_doc ''textures'' = Inr (JObj [(''layer0'', JStr ''item/sword'')])
   \<and> ''item/sword'' = ''item/'' @ path_stem sword_json
   \<and> is_vanilla_json sword_json no_parent_doc = Inr False"
  by (simp add: is_vanilla_json_def no_parent_doc_def sword_json_def path_defs override_def)

text \<open>
  Claim C3, amended: a document with a textures map is classified as standard if and only
  if it has the key \<open>parent\<close> and the textures map has an entry \<open>layer0\<close> whose value is the
  string \<open>item/\<close> followed by the stem of the file; every other such document is custom.
\<close>

theorem is_vanilla_json_iff:
  assumes "py_getitem json ''textures'' = Inr (JObj slots)"
  shows "is_vanilla_json file_path json =
           Inr (py_in ''parent'' json = Inr True
                \<and> map_of slots ''layer0'' = Some (JStr (''item/'' @ path_stem file_path)))"
proof -
  have t: "py_in ''textures'' json = Inr True"
    using assms by (rule getitem_in)
  obtain kvs where j: "json = JObj kvs"
    using assms by (cases json) auto
  show ?thesis
  proof (cases "map_of slots ''layer0''")
    case None
    then have "''layer0'' \<notin> fst ` set slots"
      by (simp add: map_of_eq_None_iff)
    with assms t j None show ?thesis
      by (auto simp: is_vanilla_json_def)
  next
    case (Some v)
    then have "''layer0'' \<in> fst ` set slots"
      by (metis map_of_eq_None_iff option.distinct(1))
    with assms t j Some show ?thesis
      by (auto simp: is_vanilla_json_def)
  qed
qed

theorem is_vanilla_json_iff_witness:
  "py_getitem (vanilla_doc []) ''textures'' = Inr (JObj [(''layer0'', JStr ''item/sword'')])
   \<and> is_vanilla_json sword_json (vanilla_doc []) = Inr True
   \<and> is_vanilla_json axe_json (vanilla_doc []) = Inr False"
proof -
  have h: "py_getitem (vanilla_doc []) ''textures'' = Inr (JObj [(''layer0'', JStr ''item/sword'')])"
    by (simp add: vanilla_doc_def)
  have p: "py_in ''parent'' (vanilla_doc []) = Inr True"
    by (simp add: vanilla_doc_def)
  have s: "path_stem sword_json = ''sword''" "path_stem axe_json = ''axe''"
    by (simp_all add: sword_json_def axe_json_def path_defs)
  from is_vanilla_json_iff [OF h, of sword_json] is_vanilla_json_iff [OF h, of axe_json] h p s
  show ?thesis
    by simp
qed

text \<open>
  Claim C6, as stated: a document without the key \<open>textures\<close> makes the classifier raise
  a \<open>NoQuickFix\<close>. It raises a \<open>ResourcePackError\<close>.
\<close>

theorem no_textures_counterexample:
  "py_in ''textures'' no_textures_doc = Inr False
   \<and> \<not> is_NoQuickFix (is_vanilla_json sword_json no_textures_doc)
   \<and> is_ResourcePackError (is_vanilla_json sword_json no_textures_doc)"
  by (simp add: is_vanilla_json_def no_textures_doc_def)

text \<open>
  Claim C6, amended: for a document without the key \<open>textures\<close> the classifier raises a
  \<open>ResourcePackError\<close> that names the file. \<open>diagnose\<close> prints it and waits for enter to
  exit: nothing is asked and no restart is offered.
\<close>

theorem no_textures_is_fatal:
  assumes "py_in ''textures'' json = Inr False"
  shows "is_vanilla_json file_path json = Inl (ResourcePackError (TexturesKeyNotFound file_path))
       \<and> diagnose_except (ResourcePackError (TexturesKeyNotFound file_path)) w =
           (Inr (), w\<lparr>trace := trace w @ [PrintedError (ResourcePackError (TexturesKeyNotFound file_path)),
                                           PressEnterToExit]\<rparr>)"
  using assms by (simp add: is_vanilla_json_def diagnose_except_def)

theorem no_textures_is_fatal_witness:
  "py_in ''textures'' no_textures_doc = Inr False
   \<and> is_vanilla_json sword_json no_textures_doc
       = Inl (ResourcePackError (TexturesKeyNotFound sword_json))
   \<and> trace (snd (diagnose_except (ResourcePackError (TexturesKeyNotFound sword_json)) quiet_world))
       = [PrintedError (ResourcePackError (TexturesKeyNotFound sword_json)), PressEnterToExit]"
proof -
  have h: "py_in ''textures'' no_textures_doc = Inr False"
    by (simp add: no_textures_doc_def)
  from no_textures_is_fatal [OF h, of sword_json quiet_world] h show ?thesis
    by (simp add: quiet_world_def)
qed

section \<open>The metadata validator: claim C8\<close>

text \<open>
  Claim C8 at two packs, with the operator answering \<open>no\<close>. When \<open>pack.mcmeta\<close> is not
  JSON and the reset is declined, line 67 reads the name \<open>json\<close>, which was never bound:
  \<open>UnboundLocalError\<close>. When the document has no \<open>pack\<close> and the reset is declined, line 72
  reads \<open>json['pack']\<close>: \<open>KeyError\<close>. In both runs \<open>check_pack_mcmeta\<close> ends with an
  exception that is no \<open>NoQuickFix\<close> and no \<open>ResourcePackError\<close>, and the file is not written.
\<close>

theorem declined_reset_crashes:
  "check_pack_mcmeta (pack_with Malformed [''no'']) =
     (Inl (Uncaught UnboundLocalError),
      pack_with Malformed []\<lparr>is_error_exist := True, trace := [Asked McmetaMalformed]\<rparr>)
   \<and> check_pack_mcmeta (pack_with (Doc (JObj [])) [''no'']) =
     (Inl (Uncaught (KeyError ''pack'')),
      pack_with (Doc (JObj [])) []\<lparr>is_error_exist := True, trace := [Asked McmetaNoPack]\<rparr>)"
  by (simp add: check_pack_mcmeta_def mcmeta_pack_def mcmeta_pack_format_def ask_def pack_with_def
      quiet_world_def str_defs char_defs)

text \<open>
  The other fixes can be declined: without \<open>pack_format\<close>, and with the answer \<open>no\<close>, the
  function returns and the file holds the document it held, still without the key.
\<close>

lemma declined_pack_format_completes:
  assumes "files w pack_mcmeta = Some (Doc json)"
    and "py_getitem json ''pack'' = Inr (JObj pack)"
    and "''pack_format'' \<notin> fst ` set pack" and "''description'' \<in> fst ` set pack"
    and "ask McmetaNoPackFormat w = (Inr False, w1)"
  shows "check_pack_mcmeta w = (Inr (), dump json pack_mcmeta w1)"
proof -
  have "py_in ''pack'' json = Inr True"
    using assms(2) by (rule getitem_in)
  with assms show ?thesis
    by (simp add: check_pack_mcmeta_def mcmeta_pack_def mcmeta_pack_format_def
        mcmeta_description_def offer_default_def)
qed

lemma declined_pack_format_example:
  "fst (check_pack_mcmeta (pack_with (Doc no_pack_format_doc) [''no''])) = Inr ()
   \<and> files (snd (check_pack_mcmeta (pack_with (Doc no_pack_format_doc) [''no'']))) pack_mcmeta
       = Some (Doc no_pack_format_doc)"
  by (simp add: check_pack_mcmeta_def mcmeta_pack_def mcmeta_pack_format_def
        mcmeta_description_def offer_default_def ask_def pack_with_def no_pack_format_doc_def
        dump_def quiet_world_def str_defs char_defs)

lemma declined_not_whole_completes:
  assumes "files w pack_mcmeta = Some (Doc json)"
    and "py_getitem json ''pack'' = Inr (JObj pack)"
    and "map_of pack ''pack_format'' = Some v" and "\<And>n. v \<noteq> JInt n"
    and "''description'' \<in> fst ` set pack"
    and "ask McmetaPackFormatNotWhole w = (Inr False, w1)"
  shows "check_pack_mcmeta w = (Inr (), dump json pack_mcmeta w1)"
proof -
  have "py_in ''pack'' json = Inr True"
    using assms(2) by (rule getitem_in)
  moreover have "''pack_format'' \<in> fst ` set pack"
    using assms(3) by (metis map_of_eq_None_iff option.distinct(1))
  ultimately show ?thesis
    using assms
    by (cases v)
      (auto simp add: check_pack_mcmeta_def mcmeta_pack_def mcmeta_pack_format_def
        mcmeta_description_def offer_default_def)
qed

lemma declined_description_completes:
  assumes "files w pack_mcmeta = Some (Doc json)"
    and "py_getitem json ''pack'' = Inr (JObj pack)"
    and "map_of pack ''pack_format'' = Some (JInt n)"
    and "''description'' \<notin> fst ` set pack"
    and "ask McmetaNoDescription w = (Inr False, w1)"
  shows "check_pack_mcmeta w = (Inr (), dump json pack_mcmeta w1)"
proof -
  have "py_in ''pack'' json = Inr True"
    using assms(2) by (rule getitem_in)
  moreover have "''pack_format'' \<in> fst ` set pack"
    using assms(3) by (metis map_of_eq_None_iff option.distinct(1))
  ultimately show ?thesis
    using assms
    by (simp add: check_pack_mcmeta_def mcmeta_pack_def mcmeta_pack_format_def
        mcmeta_description_def offer_default_def)
qed

section \<open>The custom-document validator: claim C7 as stated\<close>

text \<open>
  Claim C7, as stated: every texture \<open>check_custom_json\<close> returns is in normal form. It
  fails where the operator declines the fix: the texture \<open>Item/Foo\<close> comes back as it is.
\<close>

theorem declined_textures_counterexample:
  "fst (check_custom_json foo_json (custom_doc ''Item/Foo'') (answering [''no'']))
     = Inr [''Item/Foo'']
   \<and> \<not> normalized ''Item/Foo''"
  by (simp add: check_custom_json_def custom_doc_def dumps_str_def escape_char_def
      rewrite_textures_def old_textures_def new_textures_def
      fix_name_def ask_def sample_defs str_defs char_defs)

lemma fix_name_result:
  assumes "fix_name s w = (Inr (b, t), w')"
  shows "(t = s \<or> t = str_lower (replace_space s)) \<and> AUTO_FIX w' = AUTO_FIX w
       \<and> (AUTO_FIX w \<longrightarrow> normalized t)"
proof (cases "str_islower s \<and> CHR '' '' \<notin> set s")
  case True
  with assms show ?thesis
    by (auto simp: fix_name_def islower_normalized)
next
  case False
  obtain a w1 where a: "ask (InvalidFileName s) w = (a, w1)"
    by (cases "ask (InvalidFileName s) w")
  from ask_effect [OF a] have keep: "AUTO_FIX w1 = AUTO_FIX w"
    by simp
  have auto: "AUTO_FIX w \<Longrightarrow> a = Inr True"
    using a by (simp add: ask_auto_fix)
  from assms False a keep auto show ?thesis
    by (auto simp: fix_name_def normalized_lower_replace split: sum.splits if_splits)
qed

section \<open>The reconciliation engine: claim C4\<close>

lemma unmatched_names_Nil:
  "(unmatched_names mk mf tk tf = []) = (mk - mf = {} \<and> mf - mk = {} \<and> tk - tf = {} \<and> tf - tk = {})"
  by (simp add: unmatched_names_def)

text \<open>
  Claim C4: when both directories exist and the two walks complete with the four sets,
  \<open>check_files\<close> raises one \<open>NoQuickFix\<close>, whose message lists the differences that are
  not empty, if and only if one of the four differences is not empty; when all four are
  empty it returns and raises nothing. Either way the state of the run is the one the
  walks left.
\<close>

theorem unmatched_report_iff:
  assumes "is_dir w item_dir" and "is_dir w texture_dir"
    and "walk_textures texture_glob {} w = (Inr tf, w1)"
    and "walk_models item_glob ({}, {}, {}) w1 = (Inr (mk, mf, tk), w2)"
  shows "check_files texture_glob item_glob w =
           (if mk - mf = {} \<and> mf - mk = {} \<and> tk - tf = {} \<and> tf - tk = {}
            then (Inr (), w2)
            else (Inl (NoQuickFix (UnmatchedNames (unmatched_names mk mf tk tf))), w2))
       \<and> (is_NoQuickFix (fst (check_files texture_glob item_glob w))
            \<longleftrightarrow> mk - mf \<noteq> {} \<or> mf - mk \<noteq> {} \<or> tk - tf \<noteq> {} \<or> tf - tk \<noteq> {})"
  using assms by (simp add: check_files_def unmatched_names_Nil)

text \<open>The two walks over the sample pack: nothing is asked, every name matches.\<close>

lemmas walk_defs = check_non_png_def check_non_json_def check_json_error_def fix_file_name_def
  file_identifier_def as_posix_def is_file_def texture_dir_def model_dir_def item_dir_def

lemma sample_textures:
  "walk_textures [[''item''], [''item'', ''foo.png'']] {} sample_pack = (Inr {''item/foo''}, sample_pack)"
  by (simp add: sample_pack_def walk_defs path_defs doc_defs foo_json_def fix_name_def
      str_defs char_defs)

lemma sample_paths:
  "item_dir @ [''foo.json''] = foo_json" "item_dir @ [''sword.json''] = sword_json"
  by (simp_all add: item_dir_def model_dir_def foo_json_def sword_json_def)

lemma sample_files:
  "files sample_pack foo_json = Some (Doc (custom_doc ''item/foo''))"
  "files sample_pack sword_json = Some (Doc (vanilla_doc [override 1 ''item/foo'']))"
  by (simp_all add: sample_pack_def foo_json_def sword_json_def texture_dir_def)

lemma sample_names:
  "fix_name (as_posix foo_json) w = (Inr (False, as_posix foo_json), w)"
  "fix_name (as_posix sword_json) w = (Inr (False, as_posix sword_json), w)"
  by (simp_all add: fix_name_def as_posix_def foo_json_def sword_json_def str_defs char_defs)

lemma sample_suffixes:
  "path_suffix foo_json = ''.json''" "path_suffix sword_json = ''.json''"
  "path_stem foo_json = ''foo''" "path_stem sword_json = ''sword''"
  by (simp_all add: path_defs foo_json_def sword_json_def)

lemma sample_custom:
  "check_custom_json foo_json (custom_doc ''item/foo'') w = (Inr [''item/foo''], w)"
  by (simp add: check_custom_json_def custom_doc_def dumps_str_def escape_char_def
      rewrite_textures_def old_textures_def new_textures_def fix_name_def str_defs char_defs)

lemma sample_vanilla:
  "check_vanilla_json sword_json (vanilla_doc [override 1 ''item/foo'']) w = (Inr [''item/foo''], w)"
  by (simp add: check_vanilla_json_def vanilla_doc_def override_def try_custom_model_data_def
      get_custom_model_data_def rearrange_def sorted_by_custom_model_data_def
      fix_name_def str_defs char_defs)

lemma sample_classes:
  "is_vanilla_json foo_json (custom_doc ''item/foo'') = Inr False"
  "is_vanilla_json sword_json (vanilla_doc [override 1 ''item/foo'']) = Inr True"
  by (simp_all add: is_vanilla_json_def custom_doc_def vanilla_doc_def sample_suffixes)

lemma sample_identifier:
  "file_identifier [''item'', ''foo.json''] = ''item/foo''"
  by (simp add: file_identifier_def as_posix_def path_defs)

lemma sample_models:
  "walk_models [[''foo.json''], [''sword.json'']] ({}, {}, {}) sample_pack
     = (Inr ({''item/foo''}, {''item/foo''}, {''item/foo''}), sample_pack)"
  by (simp add: sample_paths is_file_def sample_files check_non_json_def sample_suffixes
      check_json_error_def fix_file_name_def sample_names sample_classes sample_custom
      sample_vanilla sample_identifier)

theorem unmatched_report_iff_witness:
  "is_dir sample_pack item_dir \<and> is_dir sample_pack texture_dir
   \<and> walk_textures [[''item''], [''item'', ''foo.png'']] {} sample_pack
       = (Inr {''item/foo''}, sample_pack)
   \<and> walk_models [[''foo.json''], [''sword.json'']] ({}, {}, {}) sample_pack
       = (Inr ({''item/foo''}, {''item/foo''}, {''item/foo''}), sample_pack)
   \<and> check_files [[''item''], [''item'', ''foo.png'']] [[''foo.json''], [''sword.json'']] sample_pack
       = (Inr (), sample_pack)"
proof -
  have d: "is_dir sample_pack item_dir" "is_dir sample_pack texture_dir"
    by (simp_all add: is_dir_def sample_pack_def)
  from unmatched_report_iff [OF d sample_textures sample_models] d sample_textures sample_models
  show ?thesis
    by simp
qed

text \<open>Without the standard model nothing refers to \<open>foo.json\<close>, and that is reported.\<close>

lemma unused_model_file_reported:
  "check_files [[''item''], [''item'', ''foo.png'']] [[''foo.json'']] sample_pack
     = (Inl (NoQuickFix (UnmatchedNames [UnusedModelFiles {''item/foo''}])), sample_pack)"
proof -
  have m: "walk_models [[''foo.json'']] ({}, {}, {}) sample_pack
     = (Inr ({}, {''item/foo''}, {''item/foo''}), sample_pack)"
    by (simp add: sample_paths is_file_def sample_files check_non_json_def sample_suffixes
      check_json_error_def fix_file_name_def sample_names sample_classes sample_custom
      sample_identifier)
  have d: "is_dir sample_pack item_dir" "is_dir sample_pack texture_dir"
    by (simp_all add: is_dir_def sample_pack_def)
  show ?thesis
    by (simp add: check_files_def d sample_textures m unmatched_names_def
        del: walk_textures.simps walk_models.simps)
qed

section \<open>What the code does around claims C1 and C5\<close>

text \<open>
  In the mode that accepts every fix the strings are stable: a string \<open>fix_name\<close> has
  returned comes back unchanged from a second call. Only the flag of the second call can
  still be true, for a string without a letter.
\<close>

lemma fix_name_again:
  assumes "AUTO_FIX w" and "fix_name s w = (Inr (b, t), w1)" and "AUTO_FIX w'"
  shows "\<exists>b'. fst (fix_name t w') = Inr (b', t)"
proof -
  from fix_name_result [OF assms(2)] assms(1) have "normalized t"
    by simp
  then have "str_lower (replace_space t) = t"
    by (rule normalized_fixpoint)
  with assms(3) show ?thesis
    by (auto simp: fix_name_def ask_auto_fix)
qed

text \<open>
  The prompt and the loop over the models raise exceptions of Python only, so the
  duplicate error of \<open>check_vanilla_json\<close> comes from the scan alone: it is raised exactly
  when the numbers, with \<open>-1\<close> put in front, have two equal neighbours.
\<close>

lemma input_loop_error: "input_loop ls = (Inl e, rest, n) \<Longrightarrow> e = Uncaught EOFError"
  by (induction ls arbitrary: rest n) (auto simp: Let_def split: if_splits prod.splits)

lemma ask_error: "ask q w = (Inl e, w') \<Longrightarrow> e = Uncaught EOFError"
  by (auto simp: ask_def Let_def split: if_splits prod.splits dest: input_loop_error)

lemma fix_name_error: "fix_name s w = (Inl e, w') \<Longrightarrow> e = Uncaught EOFError"
  by (auto simp: fix_name_def split: if_splits prod.splits sum.splits dest: ask_error)

lemma fix_name_value_error: "fix_name_value v w = (Inl e, w') \<Longrightarrow> \<exists>x. e = Uncaught x"
  by (cases v) (auto dest: fix_name_error)

lemma py_getitem_error: "py_getitem v key = Inl e \<Longrightarrow> \<exists>x. e = Uncaught x"
  by (cases v) (auto split: option.splits)

lemma fix_models_error: "fix_models os w = (Inl e, w') \<Longrightarrow> \<exists>x. e = Uncaught x"
proof (induction os arbitrary: w)
  case Nil
  then show ?case by simp
next
  case (Cons a os)
  then show ?case
    by (auto split: sum.splits prod.splits dest: py_getitem_error fix_name_value_error)
qed

lemma rearrange_error:
  "rearrange file_path json os sorted_os w = (Inl e, w') \<Longrightarrow> \<exists>x. e = Uncaught x"
  by (cases json)
    (auto simp: rearrange_def split: if_splits sum.splits prod.splits dest: ask_error)

lemma duplicate_error_iff:
  assumes "py_getitem json ''overrides'' = Inr (JArr overrides)"
    and "try_custom_model_data overrides = Inr custom_model_data"
    and "as_ints custom_model_data = Some numbers"
  shows "(\<exists>number. fst (check_vanilla_json file_path json w)
              = Inl (NoQuickFix (DuplicateCustomModelData number file_path)))
         = (\<not> distinct_adj (- 1 # numbers))"
proof (cases "duplicate_scan (- 1) numbers")
  case None
  have inn: "py_in ''overrides'' json = Inr True"
    using assms(1) by (rule getitem_in)
  obtain r1 w1 where r: "rearrange file_path json overrides
      (sorted_by_custom_model_data numbers overrides) w = (r1, w1)"
    by (cases "rearrange file_path json overrides (sorted_by_custom_model_data numbers overrides) w")
  have "\<nexists>number. fst (check_vanilla_json file_path json w)
              = Inl (NoQuickFix (DuplicateCustomModelData number file_path))"
  proof (cases r1)
    case (Inl e)
    with r rearrange_error obtain x where "e = Uncaught x"
      by blast
    with assms inn None r Inl show ?thesis
      by (simp add: check_vanilla_json_def)
  next
    case (Inr os')
    obtain r2 w2 where f: "fix_models os' w1 = (r2, w2)"
      by (cases "fix_models os' w1")
    from assms inn None r Inr f have c: "check_vanilla_json file_path json w = (r2, w2)"
      by (simp add: check_vanilla_json_def)
    show ?thesis
    proof (cases r2)
      case (Inl e)
      with f fix_models_error obtain x where "e = Uncaught x"
        by blast
      with c Inl show ?thesis by simp
    next
      case (Inr names)
      with c show ?thesis by simp
    qed
  qed
  with None show ?thesis
    by (simp add: duplicate_scan_distinct_adj [symmetric])
next
  case (Some number)
  have inn: "py_in ''overrides'' json = Inr True"
    using assms(1) by (rule getitem_in)
  from Some have "\<not> distinct_adj (- 1 # numbers)"
    by (simp add: duplicate_scan_distinct_adj [symmetric])
  with assms inn Some show ?thesis
    by (simp add: check_vanilla_json_def)
qed

section \<open>The reordering of the overrides: claim C9\<close>

lemma new_events_append: "trace w' = trace w @ new \<Longrightarrow> new_events w w' = new"
  by (simp add: new_events_def)

lemma try_custom_model_data_all:
  "try_custom_model_data os = Inr vs \<Longrightarrow> all_custom_model_data os = Inr vs"
  unfolding try_custom_model_data_def
  by (auto dest!: except_KeyError_Inr split: list.splits sum.splits)

lemma read_numbers:
  "all_custom_model_data os = Inr vs \<Longrightarrow> as_ints vs = Some ns \<Longrightarrow>
   list_all2 has_custom_model_data ns os"
proof (induction os arbitrary: vs ns)
  case Nil
  then show ?case by auto
next
  case (Cons a os)
  from Cons.prems(1) obtain v vs' where v: "get_custom_model_data a = Inr v"
    and rest: "all_custom_model_data os = Inr vs'" and vs: "vs = v # vs'"
    by (auto split: sum.splits)
  from Cons.prems(2) vs obtain n ns' where n: "v = JInt n" and ns': "as_ints vs' = Some ns'"
    and ns: "ns = n # ns'"
    by (cases v) (auto split: option.splits)
  from Cons.IH [OF rest ns'] v n ns show ?case
    by (simp add: has_custom_model_data_def)
qed

lemma numbers_of_pairs:
  "\<forall>p \<in> set ps. has_custom_model_data (fst p) (snd p) \<Longrightarrow>
   all_custom_model_data (map snd ps) = Inr (map JInt (map fst ps))"
  by (induction ps) (auto simp: has_custom_model_data_def)

lemma filter_pairs:
  assumes "\<forall>p \<in> set ps. has_custom_model_data (fst p) (snd p)"
  shows "filter (has_custom_model_data k) (map snd ps) = map snd (filter (\<lambda>p. fst p = k) ps)"
proof -
  have "filter (has_custom_model_data k \<circ> snd) ps = filter (\<lambda>p. fst p = k) ps"
    using assms by (intro filter_cong) (auto simp: has_custom_model_data_def)
  then show ?thesis
    by (simp add: filter_map)
qed

lemma sorted_overrides_stable:
  assumes "list_all2 has_custom_model_data ns os"
  shows "mset (sorted_by_custom_model_data ns os) = mset os"
    and "all_custom_model_data (sorted_by_custom_model_data ns os) = Inr (map JInt (sort ns))"
    and "filter (has_custom_model_data k) (sorted_by_custom_model_data ns os)
           = filter (has_custom_model_data k) os"
proof -
  from assms have len: "length ns = length os"
    by (rule list_all2_lengthD)
  from assms have pairs: "\<forall>p \<in> set (zip ns os). has_custom_model_data (fst p) (snd p)"
    by (auto simp: list_all2_iff)
  then have sorted_pairs:
    "\<forall>p \<in> set (sort_key fst (zip ns os)). has_custom_model_data (fst p) (snd p)"
    by simp
  from len have unzip: "map snd (zip ns os) = os" "map fst (zip ns os) = ns"
    by simp_all
  have "mset (map snd (sort_key fst (zip ns os))) = mset (map snd (zip ns os))"
    by simp
  then show "mset (sorted_by_custom_model_data ns os) = mset os"
    by (simp only: sorted_by_custom_model_data_def unzip)
  have "mset (map fst (sort_key fst (zip ns os))) = mset (map fst (zip ns os))"
    by simp
  then have "mset (map fst (sort_key fst (zip ns os))) = mset ns"
    by (simp only: unzip)
  moreover have "sorted (map fst (sort_key fst (zip ns os)))"
    by simp
  ultimately have "sort ns = map fst (sort_key fst (zip ns os))"
    by (rule properties_for_sort)
  with numbers_of_pairs [OF sorted_pairs]
  show "all_custom_model_data (sorted_by_custom_model_data ns os) = Inr (map JInt (sort ns))"
    by (simp add: sorted_by_custom_model_data_def)
  have "filter (has_custom_model_data k) (sorted_by_custom_model_data ns os)
      = map snd (filter (\<lambda>p. fst p = k) (sort_key fst (zip ns os)))"
    unfolding sorted_by_custom_model_data_def using sorted_pairs by (rule filter_pairs)
  also have "\<dots> = map snd (filter (\<lambda>p. fst p = k) (zip ns os))"
    by (simp add: sort_key_stable)
  also have "\<dots> = filter (has_custom_model_data k) (map snd (zip ns os))"
    using pairs by (rule filter_pairs [symmetric])
  finally show "filter (has_custom_model_data k) (sorted_by_custom_model_data ns os)
           = filter (has_custom_model_data k) os"
    using len by simp
qed

lemma rearrange_effect:
  assumes "rearrange file_path json os sos w = (r, w1)"
  shows "\<exists>new. trace w1 = trace w @ new \<and>
      ((files w1 = files w \<and> \<not> list_ex is_Dumped new \<and> (os = sos \<longrightarrow> new = [] \<and> r = Inr os))
       \<or> (os \<noteq> sos \<and> r = Inr sos \<and> list_ex is_Dumped new
           \<and> (\<exists>json'. py_setitem json ''overrides'' (JArr sos) = Inr json'
                  \<and> files w1 file_path = Some (Doc json'))))"
proof (cases "os = sos")
  case True
  with assms show ?thesis
    by (auto simp: rearrange_def)
next
  case False
  obtain a w0 where a: "ask (NotAscending file_path) w = (a, w0)"
    by (cases "ask (NotAscending file_path) w")
  from ask_effect [OF a] obtain n where f0: "files w0 = files w"
    and t0: "trace w0 = trace w @ Asked (NotAscending file_path) # replicate n NotUnderstood"
    by auto
  have quiet: "\<not> list_ex is_Dumped (Asked (NotAscending file_path) # replicate n NotUnderstood)"
    by (simp add: list_ex_iff)
  show ?thesis
  proof (cases "\<exists>json'. a = Inr True \<and> py_setitem json ''overrides'' (JArr sos) = Inr json'")
    case True
    then obtain json' where yes: "a = Inr True"
      and set: "py_setitem json ''overrides'' (JArr sos) = Inr json'"
      by blast
    with assms False a have "r = Inr sos" and "w1 = dump json' file_path w0"
      by (auto simp: rearrange_def)
    with False set t0 show ?thesis
      by (auto simp: dump_def)
  next
    case no: False
    with assms False a have "w1 = w0"
      by (auto simp: rearrange_def split: sum.splits if_splits)
    with False f0 t0 quiet show ?thesis
      by auto
  qed
qed

lemma vanilla_run_effect:
  assumes "py_getitem json ''overrides'' = Inr (JArr overrides)"
    and "try_custom_model_data overrides = Inr custom_model_data"
    and "as_ints custom_model_data = Some numbers"
    and "check_vanilla_json file_path json w = (r, w')"
  shows "\<exists>new. trace w' = trace w @ new \<and>
      ((files w' = files w \<and> \<not> list_ex is_Dumped new
          \<and> (sorted numbers \<longrightarrow> \<not> list_ex is_reorder_prompt new))
       \<or> (\<not> sorted numbers \<and> list_ex is_Dumped new
           \<and> (\<exists>json'. py_setitem json ''overrides''
                          (JArr (sorted_by_custom_model_data numbers overrides)) = Inr json'
                  \<and> files w' file_path = Some (Doc json'))))"
proof -
  from assms(2,3) have len: "length numbers = length overrides"
    by (simp add: try_custom_model_data_length as_ints_length)
  have noop: "sorted_by_custom_model_data numbers overrides = overrides" if "sorted numbers"
    using len that by (rule sorted_noop)
  have inn: "py_in ''overrides'' json = Inr True"
    using assms(1) by (rule getitem_in)
  show ?thesis
  proof (cases "duplicate_scan (- 1) numbers")
    case (Some number)
    with assms inn have "w' = w"
      by (simp add: check_vanilla_json_def)
    then show ?thesis by simp
  next
    case None
    obtain r1 w1 where re: "rearrange file_path json overrides
        (sorted_by_custom_model_data numbers overrides) w = (r1, w1)"
      by (cases "rearrange file_path json overrides
        (sorted_by_custom_model_data numbers overrides) w")
    from rearrange_effect [OF re] obtain new1 where t1: "trace w1 = trace w @ new1"
      and alt: "(files w1 = files w \<and> \<not> list_ex is_Dumped new1
            \<and> (overrides = sorted_by_custom_model_data numbers overrides
                  \<longrightarrow> new1 = [] \<and> r1 = Inr overrides))
         \<or> (overrides \<noteq> sorted_by_custom_model_data numbers overrides
             \<and> r1 = Inr (sorted_by_custom_model_data numbers overrides)
             \<and> list_ex is_Dumped new1
             \<and> (\<exists>json'. py_setitem json ''overrides''
                          (JArr (sorted_by_custom_model_data numbers overrides)) = Inr json'
                    \<and> files w1 file_path = Some (Doc json')))"
      by blast
    have "\<exists>new2. trace w' = trace w1 @ new2 \<and> files w' = files w1
        \<and> \<not> list_ex is_Dumped new2 \<and> \<not> list_ex is_reorder_prompt new2"
    proof (cases r1)
      case (Inl e)
      with assms inn None re have "w' = w1"
        by (simp add: check_vanilla_json_def)
      then show ?thesis by simp
    next
      case (Inr os')
      with assms inn None re have "fix_models os' w1 = (r, w')"
        by (simp add: check_vanilla_json_def)
      from fix_models_effect [OF this] show ?thesis
        using name_prompts_quiet by blast
    qed
    then obtain new2 where t2: "trace w' = trace w1 @ new2" and f2: "files w' = files w1"
      and q2: "\<not> list_ex is_Dumped new2" "\<not> list_ex is_reorder_prompt new2"
      by blast
    from t1 t2 have t: "trace w' = trace w @ (new1 @ new2)"
      by simp
    from alt show ?thesis
    proof
      assume first: "files w1 = files w \<and> \<not> list_ex is_Dumped new1
            \<and> (overrides = sorted_by_custom_model_data numbers overrides
                  \<longrightarrow> new1 = [] \<and> r1 = Inr overrides)"
      with noop have "sorted numbers \<longrightarrow> new1 = []"
        by simp
      with first f2 q2 have "files w' = files w \<and> \<not> list_ex is_Dumped (new1 @ new2)
          \<and> (sorted numbers \<longrightarrow> \<not> list_ex is_reorder_prompt (new1 @ new2))"
        by (auto simp: list_ex_iff)
      with t show ?thesis by blast
    next
      assume second: "overrides \<noteq> sorted_by_custom_model_data numbers overrides
             \<and> r1 = Inr (sorted_by_custom_model_data numbers overrides)
             \<and> list_ex is_Dumped new1
             \<and> (\<exists>json'. py_setitem json ''overrides''
                          (JArr (sorted_by_custom_model_data numbers overrides)) = Inr json'
                    \<and> files w1 file_path = Some (Doc json'))"
      with noop have "\<not> sorted numbers"
        by auto
      with second f2 have "\<not> sorted numbers \<and> list_ex is_Dumped (new1 @ new2)
           \<and> (\<exists>json'. py_setitem json ''overrides''
                          (JArr (sorted_by_custom_model_data numbers overrides)) = Inr json'
                  \<and> files w' file_path = Some (Doc json'))"
        by (auto simp: list_ex_iff)
      with t show ?thesis by blast
    qed
  qed
qed

text \<open>
  Claim C9: the reordering of \<open>check_vanilla_json\<close> is a stable sort by
  \<open>custom_model_data\<close>. For a document whose overrides all carry an integer
  \<open>custom_model_data\<close>, the list \<open>sorted_by_custom_model_data\<close> builds has the same entries
  as the document's list, each as often; its numbers are the document's numbers in
  ascending order; and for every number the entries that carry it stand in the order they
  had in the document. If the numbers are ascending already, the list is the document's
  list itself, and the run asks for no reordering, writes nothing and leaves every file as
  it was. Whenever the run writes the document, the file then holds the document with
  exactly that sorted list under \<open>overrides\<close>.
\<close>

theorem reordering_is_stable_sort:
  assumes "py_getitem json ''overrides'' = Inr (JArr overrides)"
    and "try_custom_model_data overrides = Inr custom_model_data"
    and "as_ints custom_model_data = Some numbers"
    and "check_vanilla_json file_path json w = (r, w')"
  shows "mset (sorted_by_custom_model_data numbers overrides) = mset overrides
       \<and> all_custom_model_data (sorted_by_custom_model_data numbers overrides)
           = Inr (map JInt (sort numbers))
       \<and> (\<forall>k. filter (has_custom_model_data k) (sorted_by_custom_model_data numbers overrides)
              = filter (has_custom_model_data k) overrides)
       \<and> (sorted numbers \<longrightarrow>
            sorted_by_custom_model_data numbers overrides = overrides
            \<and> files w' = files w
            \<and> \<not> list_ex is_reorder_prompt (new_events w w')
            \<and> \<not> list_ex is_Dumped (new_events w w'))
       \<and> (list_ex is_Dumped (new_events w w') \<longrightarrow>
            (\<exists>json'. py_setitem json ''overrides''
                        (JArr (sorted_by_custom_model_data numbers overrides)) = Inr json'
                   \<and> files w' file_path = Some (Doc json')))"
proof -
  from assms(2) have "all_custom_model_data overrides = Inr custom_model_data"
    by (rule try_custom_model_data_all)
  then have read: "list_all2 has_custom_model_data numbers overrides"
    using assms(3) by (rule read_numbers)
  note sort = sorted_overrides_stable [OF read]
  from read have len: "length numbers = length overrides"
    by (rule list_all2_lengthD)
  have noop: "sorted numbers \<longrightarrow> sorted_by_custom_model_data numbers overrides = overrides"
    using len by (simp add: sorted_noop)
  from vanilla_run_effect [OF assms] obtain new where t: "trace w' = trace w @ new"
    and alt: "(files w' = files w \<and> \<not> list_ex is_Dumped new
          \<and> (sorted numbers \<longrightarrow> \<not> list_ex is_reorder_prompt new))
       \<or> (\<not> sorted numbers \<and> list_ex is_Dumped new
           \<and> (\<exists>json'. py_setitem json ''overrides''
                          (JArr (sorted_by_custom_model_data numbers overrides)) = Inr json'
                  \<and> files w' file_path = Some (Doc json')))"
    by blast
  from t have ne: "new_events w w' = new"
    by (rule new_events_append)
  from alt noop show ?thesis
    unfolding ne using sort by auto
qed

theorem reordering_is_stable_sort_witness:
  "py_getitem (vanilla_doc shuffled_overrides) ''overrides'' = Inr (JArr shuffled_overrides)
   \<and> try_custom_model_data shuffled_overrides = Inr [JInt 2, JInt 1, JInt 2]
   \<and> as_ints [JInt 2, JInt 1, JInt 2] = Some [2, 1, 2]
   \<and> sorted_by_custom_model_data [2, 1, 2] shuffled_overrides = ascending_overrides
   \<and> all_custom_model_data ascending_overrides = Inr [JInt 1, JInt 2, JInt 2]
   \<and> check_vanilla_json sword_json (vanilla_doc shuffled_overrides) (answering [''yes''])
       = (Inr [''item/b'', ''item/a'', ''item/c''],
          quiet_world\<lparr>is_error_exist := True,
            trace := [Asked (NotAscending sword_json),
                      Dumped sword_json (vanilla_doc ascending_overrides)],
            files := (\<lambda>p. None)(sword_json := Some (Doc (vanilla_doc ascending_overrides)))\<rparr>)
   \<and> py_getitem (vanilla_doc ordered_overrides) ''overrides'' = Inr (JArr ordered_overrides)
   \<and> try_custom_model_data ordered_overrides = Inr [JInt 1, JInt 2]
   \<and> as_ints [JInt 1, JInt 2] = Some [1, 2]
   \<and> sorted [1, 2 :: int]
   \<and> sorted_by_custom_model_data [1, 2] ordered_overrides = ordered_overrides
   \<and> check_vanilla_json sword_json (vanilla_doc ordered_overrides) quiet_world
       = (Inr [''item/a'', ''item/b''], quiet_world)"
proof -
  have h1: "py_getitem (vanilla_doc shuffled_overrides) ''overrides'' = Inr (JArr shuffled_overrides)"
    by (simp add: vanilla_doc_def)
  have h2: "try_custom_model_data shuffled_overrides = Inr [JInt 2, JInt 1, JInt 2]"
    by (simp add: try_custom_model_data_def get_custom_model_data_def override_def
        shuffled_overrides_def)
  have h3: "as_ints [JInt 2, JInt 1, JInt 2] = Some [2, 1, 2]"
    by simp
  have s: "sorted_by_custom_model_data [2, 1, 2] shuffled_overrides = ascending_overrides"
    by (simp add: sorted_by_custom_model_data_def shuffled_overrides_def ascending_overrides_def)
  have ne: "shuffled_overrides \<noteq> ascending_overrides"
    by (simp add: shuffled_overrides_def ascending_overrides_def override_def)
  have st: "py_setitem (vanilla_doc os) ''overrides'' (JArr os') = Inr (vanilla_doc os')" for os os'
    by (simp add: vanilla_doc_def)
  have m: "fix_models ascending_overrides w = (Inr [''item/b'', ''item/a'', ''item/c''], w)" for w
    by (simp add: ascending_overrides_def override_def fix_name_def str_defs char_defs)
  have h4: "check_vanilla_json sword_json (vanilla_doc shuffled_overrides) (answering [''yes''])
       = (Inr [''item/b'', ''item/a'', ''item/c''],
          quiet_world\<lparr>is_error_exist := True,
            trace := [Asked (NotAscending sword_json),
                      Dumped sword_json (vanilla_doc ascending_overrides)],
            files := (\<lambda>p. None)(sword_json := Some (Doc (vanilla_doc ascending_overrides)))\<rparr>)"
    by (simp add: check_vanilla_json_def getitem_in [OF h1] h1 h2 s ne rearrange_def st m
        ask_def dump_def sample_defs str_defs char_defs)
  have g1: "py_getitem (vanilla_doc ordered_overrides) ''overrides'' = Inr (JArr ordered_overrides)"
    by (simp add: vanilla_doc_def)
  have g2: "try_custom_model_data ordered_overrides = Inr [JInt 1, JInt 2]"
    by (simp add: try_custom_model_data_def get_custom_model_data_def override_def
        ordered_overrides_def)
  have g3: "as_ints [JInt 1, JInt 2] = Some [1, 2]"
    by simp
  have t: "sorted_by_custom_model_data [1, 2] ordered_overrides = ordered_overrides"
    by (simp add: sorted_by_custom_model_data_def ordered_overrides_def)
  have n: "fix_models ordered_overrides w = (Inr [''item/a'', ''item/b''], w)" for w
    by (simp add: ordered_overrides_def override_def fix_name_def str_defs char_defs)
  have g4: "check_vanilla_json sword_json (vanilla_doc ordered_overrides) quiet_world
       = (Inr [''item/a'', ''item/b''], quiet_world)"
    by (simp add: check_vanilla_json_def getitem_in [OF g1] g1 g2 t rearrange_def n)
  have srt: "sort [2, 1, 2 :: int] = [1, 2, 2]"
    by simp
  from reordering_is_stable_sort [OF h1 h2 h3 h4] reordering_is_stable_sort [OF g1 g2 g3 g4]
  have "all_custom_model_data ascending_overrides = Inr [JInt 1, JInt 2, JInt 2]"
    by (simp add: s srt)
  with h1 h2 h3 s h4 g1 g2 g3 t g4 show ?thesis
    by simp
qed

section \<open>The textures a custom document returns: claim C7\<close>

lemma consumed_append: "stdin w = c @ stdin w' \<Longrightarrow> consumed_input w w' = c"
  by (simp add: consumed_input_def)

lemma input_loop_consumes:
  "input_loop ls = (r, rest, n) \<Longrightarrow> \<exists>c. ls = c @ rest \<and> (r = Inr False \<longrightarrow> list_ex declines c)"
proof (induction ls arbitrary: r rest n)
  case Nil
  then show ?case by auto
next
  case (Cons line ls)
  show ?case
  proof (cases "str_lower line \<in> set [''yes'', ''y'']")
    case True
    with Cons.prems have "r = Inr True" and "rest = ls"
      by (auto simp: Let_def)
    then show ?thesis by auto
  next
    case notyes: False
    show ?thesis
    proof (cases "str_lower line \<in> set [''no'', ''n'']")
      case True
      with Cons.prems notyes have "rest = ls"
        by (auto simp: Let_def)
      moreover from True have "declines line"
        by (simp add: declines_def)
      ultimately have "line # ls = [line] @ rest \<and> list_ex declines [line]"
        by simp
      then show ?thesis by blast
    next
      case False
      obtain r' rest' n' where rec: "input_loop ls = (r', rest', n')"
        by (cases "input_loop ls")
      with Cons.prems notyes False have "r = r'" and "rest = rest'"
        by (auto simp: Let_def)
      with Cons.IH [OF rec] obtain c where "ls = c @ rest" and "r = Inr False \<longrightarrow> list_ex declines c"
        by auto
      then have "line # ls = (line # c) @ rest \<and> (r = Inr False \<longrightarrow> list_ex declines (line # c))"
        by simp
      then show ?thesis by blast
    qed
  qed
qed

lemma ask_consumes:
  assumes "ask q w = (r, w')"
  shows "\<exists>c. stdin w = c @ stdin w' \<and> (r = Inr False \<longrightarrow> list_ex declines c)"
proof (cases "AUTO_FIX w")
  case True
  with assms show ?thesis
    by (auto simp: ask_def)
next
  case False
  obtain r0 rest n where l: "input_loop (stdin w) = (r0, rest, n)"
    by (cases "input_loop (stdin w)")
  with assms False have "r = r0" and "stdin w' = rest"
    by (auto simp: ask_def Let_def)
  with input_loop_consumes [OF l] show ?thesis
    by auto
qed

lemma fix_name_consumes:
  assumes "fix_name s w = (Inr (b, t), w')"
  shows "\<exists>c. stdin w = c @ stdin w' \<and> (t = s \<or> t = normal_form s)
           \<and> (t \<noteq> normal_form s \<longrightarrow> list_ex declines c)"
proof (cases "str_islower s \<and> CHR '' '' \<notin> set s")
  case True
  then have "normal_form s = s"
    unfolding normal_form_def by (intro normalized_fixpoint islower_normalized) auto
  with assms True show ?thesis
    by (auto simp: fix_name_def)
next
  case False
  obtain a w1 where a: "ask (InvalidFileName s) w = (a, w1)"
    by (cases "ask (InvalidFileName s) w")
  from ask_consumes [OF a] obtain c where c: "stdin w = c @ stdin w1"
    and d: "a = Inr False \<longrightarrow> list_ex declines c"
    by blast
  from assms False a have "w' = w1" and "(a = Inr True \<and> t = normal_form s) \<or> (a = Inr False \<and> t = s)"
    by (auto simp: fix_name_def normal_form_def split: sum.splits if_splits)
  with c d show ?thesis
    by auto
qed

lemma fix_textures_consumes:
  "fix_textures slots w = (Inr fixed, w') \<Longrightarrow>
   \<exists>c new. stdin w = c @ stdin w' \<and> trace w' = trace w @ new \<and> list_all is_name_prompt new
     \<and> files w' = files w
     \<and> map snd slots = map JStr (old_textures fixed) \<and> map fst slots = map fst fixed
     \<and> list_all2 (\<lambda>old new. new = old \<or> new = normal_form old)
          (old_textures fixed) (new_textures fixed)
     \<and> (new_textures fixed \<noteq> map normal_form (old_textures fixed) \<longrightarrow> list_ex declines c)"
proof (induction slots arbitrary: w fixed w')
  case Nil
  then show ?case
    by (auto simp: old_textures_def new_textures_def)
next
  case (Cons slot slots)
  obtain key texture where slot: "slot = (key, texture)"
    by (cases slot)
  obtain r1 w1 where s1: "fix_name_value texture w = (r1, w1)"
    by (cases "fix_name_value texture w")
  from Cons.prems slot s1 obtain b t where r1: "r1 = Inr (b, t)"
    by (cases r1) auto
  from s1 r1 obtain old where old: "texture = JStr old" and f: "fix_name old w = (Inr (b, t), w1)"
    by (cases texture) auto
  obtain r2 w2 where s2: "fix_textures slots w1 = (r2, w2)"
    by (cases "fix_textures slots w1")
  from Cons.prems slot s1 r1 s2 obtain rest where r2: "r2 = Inr rest"
    by (cases r2) auto
  from Cons.prems slot s1 r1 s2 r2 old have fixed: "fixed = (key, old, t) # rest" and w': "w' = w2"
    by auto
  from fix_name_consumes [OF f] obtain c1 where c1: "stdin w = c1 @ stdin w1"
    and t: "t = old \<or> t = normal_form old" and d1: "t \<noteq> normal_form old \<longrightarrow> list_ex declines c1"
    by blast
  from fix_name_effect [OF f] obtain new1 where e1: "files w1 = files w"
    "trace w1 = trace w @ new1" "list_all is_name_prompt new1"
    by blast
  from Cons.IH [OF s2 [unfolded r2]] obtain c2 new2 where c2: "stdin w1 = c2 @ stdin w2"
    and e2: "trace w2 = trace w1 @ new2" "list_all is_name_prompt new2" "files w2 = files w1"
    and sh: "map snd slots = map JStr (old_textures rest)" "map fst slots = map fst rest"
      "list_all2 (\<lambda>old new. new = old \<or> new = normal_form old)
          (old_textures rest) (new_textures rest)"
    and d2: "new_textures rest \<noteq> map normal_form (old_textures rest) \<longrightarrow> list_ex declines c2"
    by blast
  have "stdin w = (c1 @ c2) @ stdin w'" "trace w' = trace w @ (new1 @ new2)"
    "list_all is_name_prompt (new1 @ new2)" "files w' = files w"
    using c1 c2 e1 e2 w' by simp_all
  moreover have "map snd (slot # slots) = map JStr (old_textures fixed)"
    "map fst (slot # slots) = map fst fixed"
    "list_all2 (\<lambda>old new. new = old \<or> new = normal_form old)
          (old_textures fixed) (new_textures fixed)"
    using sh t slot old fixed by (simp_all add: old_textures_def new_textures_def)
  moreover have "new_textures fixed \<noteq> map normal_form (old_textures fixed)
      \<longrightarrow> list_ex declines (c1 @ c2)"
    using d1 d2 fixed by (auto simp: old_textures_def new_textures_def list_ex_iff)
  ultimately show ?case
    by blast
qed

lemma fixed_textures_zip:
  "fixed_textures fixed = JObj (zip (map fst fixed) (map JStr (new_textures fixed)))"
  by (induction fixed) (auto simp: fixed_textures_def new_textures_def)

lemma rewrite_textures_effect:
  assumes "rewrite_textures file_path json fixed w = (Inr textures, w')"
  shows "\<exists>c new. stdin w = c @ stdin w' \<and> trace w' = trace w @ new
      \<and> ((textures = old_textures fixed \<and> files w' = files w \<and> \<not> list_ex is_Dumped new
             \<and> (old_textures fixed \<noteq> new_textures fixed \<longrightarrow> list_ex declines c))
          \<or> (textures = new_textures fixed \<and> list_ex is_Dumped new
              \<and> (\<exists>json'. py_setitem json ''textures'' (fixed_textures fixed) = Inr json'
                     \<and> files w' file_path = Some (Doc json'))))"
proof (cases "old_textures fixed = new_textures fixed")
  case True
  with assms have "textures = old_textures fixed" and "w' = w"
    by (auto simp: rewrite_textures_def)
  with True have "stdin w = [] @ stdin w' \<and> trace w' = trace w @ []
      \<and> textures = old_textures fixed \<and> files w' = files w \<and> \<not> list_ex is_Dumped []
      \<and> (old_textures fixed \<noteq> new_textures fixed \<longrightarrow> list_ex declines [])"
    by simp
  then show ?thesis by blast
next
  case False
  obtain a w0 where a: "ask (InvalidTextures file_path) w = (a, w0)"
    by (cases "ask (InvalidTextures file_path) w")
  from ask_effect [OF a] obtain n where f0: "files w0 = files w"
    and t0: "trace w0 = trace w @ Asked (InvalidTextures file_path) # replicate n NotUnderstood"
    by auto
  from ask_consumes [OF a] obtain c where c: "stdin w = c @ stdin w0"
    and d: "a = Inr False \<longrightarrow> list_ex declines c"
    by blast
  have quiet: "\<not> list_ex is_Dumped (Asked (InvalidTextures file_path) # replicate n NotUnderstood)"
    by (simp add: list_ex_iff)
  show ?thesis
  proof (cases "a = Inr True")
    case True
    with assms False a obtain json' where set: "py_setitem json ''textures'' (fixed_textures fixed) = Inr json'"
      and res: "textures = new_textures fixed" "w' = dump json' file_path w0"
      by (auto simp: rewrite_textures_def split: sum.splits)
    from res c t0 have "stdin w = c @ stdin w'"
      "trace w' = trace w @ (Asked (InvalidTextures file_path) # replicate n NotUnderstood
          @ [Dumped file_path json'])"
      "files w' file_path = Some (Doc json')"
      by (simp_all add: dump_def)
    moreover have "list_ex is_Dumped (Asked (InvalidTextures file_path) # replicate n NotUnderstood
          @ [Dumped file_path json'])"
      by (simp add: list_ex_iff)
    ultimately show ?thesis
      using res set by blast
  next
    case no: False
    with assms False a have "a = Inr False" and res: "textures = old_textures fixed" "w' = w0"
      by (auto simp: rewrite_textures_def split: sum.splits if_splits)
    with d have "list_ex declines c"
      by simp
    with res c t0 f0 quiet show ?thesis
      by blast
  qed
qed

text \<open>
  Claim C7, amended: when \<open>check_custom_json\<close> returns, the values of the document's
  \<open>textures\<close> object are strings, and the list it returns has one string per slot, in the
  order of the document: the slot's texture or its normal form (every space replaced by an
  underscore, every character in lower case). If no line the run has read from the
  operator is a refusal (\<open>no\<close> or \<open>n\<close> in any case), as in the mode that accepts every
  fix, the list is exactly the normal forms, and every string of it is free of uppercase
  characters and spaces. If the run has written nothing, the list is exactly the
  document's textures and every file is as it was. If the run has written the document,
  the file then holds the document with exactly the returned strings under \<open>textures\<close>.
\<close>

theorem check_custom_json_returns:
  assumes "py_getitem json ''textures'' = Inr (JObj slots)"
    and "check_custom_json file_path json w = (Inr textures, w')"
  shows "map snd slots = map JStr (slot_textures slots)
       \<and> list_all2 (\<lambda>old texture. texture = old \<or> texture = normal_form old)
            (slot_textures slots) textures
       \<and> (\<not> list_ex declines (consumed_input w w') \<longrightarrow>
            textures = map normal_form (slot_textures slots) \<and> list_all normalized textures)
       \<and> (\<not> list_ex is_Dumped (new_events w w') \<longrightarrow>
            textures = slot_textures slots \<and> files w' = files w)
       \<and> (list_ex is_Dumped (new_events w w') \<longrightarrow>
            (\<exists>json'. py_setitem json ''textures''
                        (JObj (zip (map fst slots) (map JStr textures))) = Inr json'
                   \<and> files w' file_path = Some (Doc json')))"
proof -
  from assms obtain fixed w1 where ft: "fix_textures slots w = (Inr fixed, w1)"
    and rw: "rewrite_textures file_path json fixed w1 = (Inr textures, w')"
    by (auto simp: check_custom_json_def split: sum.splits if_splits prod.splits)
  from fix_textures_consumes [OF ft] obtain c1 new1 where c1: "stdin w = c1 @ stdin w1"
    and t1: "trace w1 = trace w @ new1" and q1: "list_all is_name_prompt new1"
    and f1: "files w1 = files w"
    and vals: "map snd slots = map JStr (old_textures fixed)"
    and keys: "map fst slots = map fst fixed"
    and shape: "list_all2 (\<lambda>old new. new = old \<or> new = normal_form old)
          (old_textures fixed) (new_textures fixed)"
    and d1: "new_textures fixed \<noteq> map normal_form (old_textures fixed) \<longrightarrow> list_ex declines c1"
    by blast
  from rewrite_textures_effect [OF rw] obtain c2 new2 where c2: "stdin w1 = c2 @ stdin w'"
    and t2: "trace w' = trace w1 @ new2"
    and alt: "(textures = old_textures fixed \<and> files w' = files w1 \<and> \<not> list_ex is_Dumped new2
             \<and> (old_textures fixed \<noteq> new_textures fixed \<longrightarrow> list_ex declines c2))
          \<or> (textures = new_textures fixed \<and> list_ex is_Dumped new2
              \<and> (\<exists>json'. py_setitem json ''textures'' (fixed_textures fixed) = Inr json'
                     \<and> files w' file_path = Some (Doc json')))"
    by blast
  from vals have "map (str_value \<circ> snd) slots = map (str_value \<circ> JStr) (old_textures fixed)"
    by (metis map_map)
  then have olds: "slot_textures slots = old_textures fixed"
    by (simp add: slot_textures_def comp_def)
  from c1 c2 have "stdin w = (c1 @ c2) @ stdin w'"
    by simp
  then have consumed: "consumed_input w w' = c1 @ c2"
    by (rule consumed_append)
  from t1 t2 have "trace w' = trace w @ (new1 @ new2)"
    by simp
  then have events: "new_events w w' = new1 @ new2"
    by (rule new_events_append)
  from q1 have quiet1: "\<not> list_ex is_Dumped new1"
    using name_prompts_quiet by blast
  have all_normal: "list_all normalized (map normal_form xs)" for xs
    by (simp add: list_all_iff normal_form_def normalized_lower_replace)
  have c: "map snd slots = map JStr (slot_textures slots)"
    using vals olds by simp
  from alt show ?thesis
  proof
    assume first: "textures = old_textures fixed \<and> files w' = files w1 \<and> \<not> list_ex is_Dumped new2
             \<and> (old_textures fixed \<noteq> new_textures fixed \<longrightarrow> list_ex declines c2)"
    then have same: "textures = slot_textures slots"
      using olds by simp
    have s: "list_all2 (\<lambda>old texture. texture = old \<or> texture = normal_form old)
            (slot_textures slots) textures"
      unfolding same by (simp add: list_all2_same)
    have n: "\<not> list_ex declines (consumed_input w w') \<longrightarrow>
            textures = map normal_form (slot_textures slots) \<and> list_all normalized textures"
    proof
      assume "\<not> list_ex declines (consumed_input w w')"
      then have "\<not> list_ex declines c1" and "\<not> list_ex declines c2"
        unfolding consumed by (simp_all add: list_ex_iff)
      with d1 first have a: "new_textures fixed = map normal_form (old_textures fixed)"
        and b: "old_textures fixed = new_textures fixed"
        by blast+
      from first have "textures = old_textures fixed"
        by blast
      also note b
      also note a
      finally have "textures = map normal_form (old_textures fixed)" .
      then have eq: "textures = map normal_form (slot_textures slots)"
        by (simp only: olds)
      show "textures = map normal_form (slot_textures slots) \<and> list_all normalized textures"
        unfolding eq using all_normal [of "slot_textures slots"] by simp
    qed
    have nd: "\<not> list_ex is_Dumped (new_events w w')"
      using first quiet1 unfolding events by (auto simp: list_ex_iff)
    from first f1 have fs: "files w' = files w"
      by simp
    have k4: "\<not> list_ex is_Dumped (new_events w w') \<longrightarrow>
            textures = slot_textures slots \<and> files w' = files w"
      using same fs by blast
    have k5: "list_ex is_Dumped (new_events w w') \<longrightarrow>
            (\<exists>json'. py_setitem json ''textures''
                        (JObj (zip (map fst slots) (map JStr textures))) = Inr json'
                   \<and> files w' file_path = Some (Doc json'))"
      using nd by blast
    show ?thesis
      by (rule conjI [OF c conjI [OF s conjI [OF n conjI [OF k4 k5]]]])
  next
    assume second: "textures = new_textures fixed \<and> list_ex is_Dumped new2
              \<and> (\<exists>json'. py_setitem json ''textures'' (fixed_textures fixed) = Inr json'
                     \<and> files w' file_path = Some (Doc json'))"
    from second have "textures = new_textures fixed"
      by simp
    with shape have s: "list_all2 (\<lambda>old texture. texture = old \<or> texture = normal_form old)
            (slot_textures slots) textures"
      by (simp only: olds)
    have n: "\<not> list_ex declines (consumed_input w w') \<longrightarrow>
            textures = map normal_form (slot_textures slots) \<and> list_all normalized textures"
    proof
      assume "\<not> list_ex declines (consumed_input w w')"
      then have "\<not> list_ex declines c1"
        unfolding consumed by (simp add: list_ex_iff)
      with d1 have a: "new_textures fixed = map normal_form (old_textures fixed)"
        by blast
      from second have "textures = new_textures fixed"
        by blast
      also note a
      finally have "textures = map normal_form (old_textures fixed)" .
      then have eq: "textures = map normal_form (slot_textures slots)"
        by (simp only: olds)
      show "textures = map normal_form (slot_textures slots) \<and> list_all normalized textures"
        unfolding eq using all_normal [of "slot_textures slots"] by simp
    qed
    have d: "list_ex is_Dumped (new_events w w')"
      using second unfolding events by (auto simp: list_ex_iff)
    have "fixed_textures fixed = JObj (zip (map fst slots) (map JStr textures))"
      using second keys by (simp add: fixed_textures_zip)
    with second have w: "\<exists>json'. py_setitem json ''textures''
                        (JObj (zip (map fst slots) (map JStr textures))) = Inr json'
                   \<and> files w' file_path = Some (Doc json')"
      by auto
    have k4: "\<not> list_ex is_Dumped (new_events w w') \<longrightarrow>
            textures = slot_textures slots \<and> files w' = files w"
      using d by blast
    have k5: "list_ex is_Dumped (new_events w w') \<longrightarrow>
            (\<exists>json'. py_setitem json ''textures''
                        (JObj (zip (map fst slots) (map JStr textures))) = Inr json'
                   \<and> files w' file_path = Some (Doc json'))"
      using w by blast
    show ?thesis
      by (rule conjI [OF c conjI [OF s conjI [OF n conjI [OF k4 k5]]]])
  qed
qed

theorem check_custom_json_returns_witness:
  "py_getitem (custom_doc ''Item/Foo Bar'') ''textures'' = Inr (JObj [(''0'', JStr ''Item/Foo Bar'')])
   \<and> slot_textures [(''0'', JStr ''Item/Foo Bar'')] = [''Item/Foo Bar'']
   \<and> check_custom_json foo_json (custom_doc ''Item/Foo Bar'') (answering [''yes'', ''y''])
       = (Inr [''item/foo_bar''],
          quiet_world\<lparr>is_error_exist := True,
            trace := [Asked (InvalidFileName ''Item/Foo Bar''), Asked (InvalidTextures foo_json),
                      Dumped foo_json (custom_doc ''item/foo_bar'')],
            files := (\<lambda>p. None)(foo_json := Some (Doc (custom_doc ''item/foo_bar'')))\<rparr>)
   \<and> list_all normalized [''item/foo_bar'']
   \<and> check_custom_json foo_json (custom_doc ''Item/Foo Bar'') (answering [''yes'', ''no''])
       = (Inr [''Item/Foo Bar''],
          quiet_world\<lparr>is_error_exist := True,
            trace := [Asked (InvalidFileName ''Item/Foo Bar''), Asked (InvalidTextures foo_json)]\<rparr>)"
proof -
  have h: "py_getitem (custom_doc ''Item/Foo Bar'') ''textures''
      = Inr (JObj [(''0'', JStr ''Item/Foo Bar'')])"
    by (simp add: custom_doc_def)
  have t: "slot_textures [(''0'', JStr ''Item/Foo Bar'')] = [''Item/Foo Bar'']"
    by (simp add: slot_textures_def)
  have nf: "normal_form ''Item/Foo Bar'' = ''item/foo_bar''"
    by (simp add: normal_form_def str_defs char_defs)
  have accepted: "check_custom_json foo_json (custom_doc ''Item/Foo Bar'') (answering [''yes'', ''y''])
       = (Inr [''item/foo_bar''],
          quiet_world\<lparr>is_error_exist := True,
            trace := [Asked (InvalidFileName ''Item/Foo Bar''), Asked (InvalidTextures foo_json),
                      Dumped foo_json (custom_doc ''item/foo_bar'')],
            files := (\<lambda>p. None)(foo_json := Some (Doc (custom_doc ''item/foo_bar'')))\<rparr>)"
    by (simp add: check_custom_json_def custom_doc_def dumps_str_def escape_char_def
      rewrite_textures_def old_textures_def new_textures_def fixed_textures_def dump_def
      fix_name_def ask_def sample_defs str_defs char_defs)
  have declined: "check_custom_json foo_json (custom_doc ''Item/Foo Bar'') (answering [''yes'', ''no''])
       = (Inr [''Item/Foo Bar''],
          quiet_world\<lparr>is_error_exist := True,
            trace := [Asked (InvalidFileName ''Item/Foo Bar''), Asked (InvalidTextures foo_json)]\<rparr>)"
    by (simp add: check_custom_json_def custom_doc_def dumps_str_def escape_char_def
      rewrite_textures_def old_textures_def new_textures_def fixed_textures_def dump_def
      fix_name_def ask_def sample_defs str_defs char_defs)
  have c: "consumed_input (answering [''yes'', ''y''])
      (quiet_world\<lparr>is_error_exist := True,
            trace := [Asked (InvalidFileName ''Item/Foo Bar''), Asked (InvalidTextures foo_json),
                      Dumped foo_json (custom_doc ''item/foo_bar'')],
            files := (\<lambda>p. None)(foo_json := Some (Doc (custom_doc ''item/foo_bar'')))\<rparr>)
      = [''yes'', ''y'']"
    by (simp add: consumed_input_def sample_defs)
  have d: "\<not> declines ''yes''" "\<not> declines ''y''"
    by (simp_all add: declines_def str_defs char_defs)
  from check_custom_json_returns [OF h accepted] check_custom_json_returns [OF h declined]
  have "list_all normalized [''item/foo_bar'']"
    by (simp add: c d t nf)
  with h t accepted declined show ?thesis
    by simp
qed

end
